theory Spec2Isabelle
  imports Complex_Main
begin

section \<open>Job-Sphere: hiring workflow, interview slots, persistence and signaling relay\<close>

text \<open>
  A shallow embedding of \<^verbatim>\<open>workflow_service.py\<close>, of the parts of
  \<^verbatim>\<open>interview_service.py\<close> and \<^verbatim>\<open>repository.py\<close> it calls, and of
  \<^verbatim>\<open>video_service.py\<close>.

  Conventions of the embedding.
  \<^item> Python methods whose name starts with an underscore keep their name without it
    (\<^verbatim>\<open>_schedule_interview\<close> is \<open>schedule_interview_step\<close> where the plain name is
    already taken by a public method).
  \<^item> Every \<^verbatim>\<open>datetime.now()\<close> read during one call is the single argument \<open>now\<close>.
  \<^item> The \<^verbatim>\<open>_id\<close> the driver generates for an inserted document, and the metadata
    fields copied from it, are not part of the documents of the model; an application's
    \<^verbatim>\<open>_id\<close> is.
  \<^item> E-mail delivery and the e-mail log are outside the model: a notification call
    neither changes a modelled collection nor raises past its own \<^verbatim>\<open>try\<close>.
  \<^item> A connected driver does not fail in the middle of a call; the disconnected store
    (\<^verbatim>\<open>db.client is None\<close>) is modelled.
\<close>

subsection \<open>Exceptions\<close>

datatype exn =
    ValueError
  | KeyError
  | InvalidId
  | DatabaseNotAvailable
  | CollectionNotAvailable
  | ConnectionClosed
  | JSONDecodeError
  | DriverError
  | OverflowError

subsection \<open>Time\<close>

text \<open>
  A naive \<^verbatim>\<open>datetime\<close> is the number of microseconds since 0001-01-01T00:00:00, the
  day of proleptic ordinal 1, which is a Monday: \<^verbatim>\<open>weekday()\<close> is
  \<^verbatim>\<open>(toordinal() + 6) % 7\<close>.
\<close>

type_synonym datetime = int

definition usec_per_minute :: int where
  "usec_per_minute = 60000000"

definition usec_per_hour :: int where
  "usec_per_hour = 3600000000"

definition usec_per_day :: int where
  "usec_per_day = 86400000000"

definition days :: "int \<Rightarrow> int" where
  "days n = n * usec_per_day"

definition hours :: "int \<Rightarrow> int" where
  "hours n = n * usec_per_hour"

definition minutes :: "int \<Rightarrow> int" where
  "minutes n = n * usec_per_minute"

text \<open>
  The last \<^verbatim>\<open>datetime\<close> is 9999-12-31T23:59:59.999999, on the day of ordinal 3652059;
  a \<^verbatim>\<open>timedelta\<close> has at most 999999999 days in either direction. Building a
  \<^verbatim>\<open>timedelta\<close> and adding one to a \<^verbatim>\<open>datetime\<close> raise \<^verbatim>\<open>OverflowError\<close> outside
  these ranges. The slot search and the conflict check, whose dates and durations come
  from their callers, are modelled with these checks; the other sums add a day or a week
  to the reading of the clock.
\<close>

definition datetime_max :: int where
  "datetime_max = 3652059 * usec_per_day - 1"

definition timedelta_min :: int where
  "timedelta_min = - (999999999 * usec_per_day)"

definition timedelta_max :: int where
  "timedelta_max = 999999999 * usec_per_day + (usec_per_day - 1)"

definition timedelta :: "int \<Rightarrow> exn + int" where
  \<comment> \<open>the \<^verbatim>\<open>timedelta\<close> of a number of microseconds\<close>
  "timedelta us =
     (if timedelta_min \<le> us \<and> us \<le> timedelta_max then Inr us else Inl OverflowError)"

definition datetime_add :: "datetime \<Rightarrow> int \<Rightarrow> exn + datetime" where
  \<comment> \<open>\<^verbatim>\<open>t + d\<close>, and \<^verbatim>\<open>t - d\<close> as \<open>datetime_add t (- d)\<close>\<close>
  "datetime_add t d =
     (if 0 \<le> t + d \<and> t + d \<le> datetime_max then Inr (t + d) else Inl OverflowError)"

definition weekday :: "datetime \<Rightarrow> int" where
  "weekday t = (t div usec_per_day) mod 7"

definition replace_hour :: "datetime \<Rightarrow> int \<Rightarrow> datetime" where
  \<comment> \<open>\<^verbatim>\<open>t.replace(hour=h, minute=0, second=0, microsecond=0)\<close>\<close>
  "replace_hour t h = (t div usec_per_day) * usec_per_day + h * usec_per_hour"

subsection \<open>Object ids\<close>

text \<open>
  \<^verbatim>\<open>ObjectId(s)\<close> of the driver takes a string of 24 characters and keeps the bytes
  \<^verbatim>\<open>bytes.fromhex(s)\<close> reads from it, raising \<^verbatim>\<open>InvalidId\<close> for another length or when
  \<^verbatim>\<open>fromhex\<close> rejects the string. \<^verbatim>\<open>fromhex\<close> reads pairs of hexadecimal digits and
  skips ASCII white space before a pair, so a string with blanks gives fewer than twelve
  bytes. Two ids are equal when their bytes are: the model keeps the digits read, in
  lower case.
\<close>

definition is_hexdigit :: "char \<Rightarrow> bool" where
  "is_hexdigit c = (c \<in> set ''0123456789abcdefABCDEF'')"

definition is_space :: "char \<Rightarrow> bool" where
  \<comment> \<open>space, tab, line feed, vertical tab, form feed, carriage return\<close>
  "is_space c = (c \<in> set [CHR '' '', CHR 0x09, CHR 0x0A, CHR 0x0B, CHR 0x0C, CHR 0x0D])"

definition lower_hex :: "char \<Rightarrow> char" where
  "lower_hex c =
     (if c = CHR ''A'' then CHR ''a'' else if c = CHR ''B'' then CHR ''b''
      else if c = CHR ''C'' then CHR ''c'' else if c = CHR ''D'' then CHR ''d''
      else if c = CHR ''E'' then CHR ''e'' else if c = CHR ''F'' then CHR ''f'' else c)"

fun fromhex :: "string \<Rightarrow> exn + string" where
  "fromhex [] = Inr []"
| "fromhex [c] = (if is_space c then Inr [] else Inl ValueError)"
| "fromhex (c # d # rest) =
     (if is_space c then fromhex (d # rest)
      else if is_hexdigit c \<and> is_hexdigit d
      then (case fromhex rest of
              Inl e \<Rightarrow> Inl e
            | Inr bytes \<Rightarrow> Inr (lower_hex c # lower_hex d # bytes))
      else Inl ValueError)"

definition ObjectId :: "string \<Rightarrow> exn + string" where
  "ObjectId s =
     (if length s = 24
      then (case fromhex s of Inl e \<Rightarrow> Inl InvalidId | Inr bytes \<Rightarrow> Inr bytes)
      else Inl InvalidId)"

subsection \<open>Documents\<close>

record history_entry =
  h_stage :: string
  h_timestamp :: datetime
  h_notes :: string

text \<open>
  A pipeline document. \<open>current_stage\<close> and \<open>stage_history\<close> are read with
  \<^verbatim>\<open>d["current_stage"]\<close> and \<^verbatim>\<open>d.get("stage_history", [])\<close>, so the absent key is
  a value of the model.
\<close>

record pipeline_doc =
  application_id :: string
  job_id :: string
  candidate_id :: string
  current_stage :: "string option"
  stage_history :: "history_entry list option"
  next_action :: string
  next_action_date :: "datetime option"
  updated_at :: "datetime option"

record application_doc =
  a_id :: string
  a_job_id :: string
  a_user_id :: string
  a_hr_id :: string
  a_applicant_name :: string
  a_email :: string
  a_status :: string
  a_updated_at :: "datetime option"

record interview_doc =
  i_application_id :: string
  i_job_id :: string
  i_candidate_id :: string
  i_hr_id :: string
  i_interview_type :: string
  i_scheduled_datetime :: datetime
  i_duration_minutes :: int
  i_status :: string

record schedule_event =
  e_job_id :: string
  e_event_type :: string
  e_title :: string
  e_scheduled_datetime :: datetime
  e_status :: string
  e_participants :: "string list"
  e_metadata :: "(string \<times> string) list"

record test_doc =
  t_id :: string
  t_job_id :: string
  t_status :: string

record test_submission =
  ts_test_id :: string
  ts_application_id :: string
  ts_candidate_id :: string
  ts_status :: string

record job_offer =
  o_application_id :: string
  o_job_id :: string
  o_candidate_id :: string
  o_hr_id :: string
  o_status :: string
  o_expiry_date :: "datetime option"

subsection \<open>The store and the generic repository\<close>

text \<open>
  \<open>client\<close> is \<^verbatim>\<open>db.client is not None\<close>. A collection is named by a handle: how
  \<^verbatim>\<open>getattr(self.db, collection, None)\<close> reads it (\<open>None\<close> when the attribute is
  missing) and how a write replaces its documents.
\<close>

record database =
  client :: bool
  candidate_pipeline :: "pipeline_doc list"
  applications :: "application_doc list"
  interviews :: "interview_doc list"
  schedule_events :: "schedule_event list"
  tests :: "test_doc list"
  test_submissions :: "test_submission list"
  job_offers :: "job_offer list"

record 'a collection =
  getc :: "database \<Rightarrow> 'a list option"
  putc :: "'a list \<Rightarrow> database \<Rightarrow> database"

definition candidate_pipeline_c :: "pipeline_doc collection" where
  "candidate_pipeline_c =
     \<lparr>getc = (\<lambda>d. Some (candidate_pipeline d)), putc = (\<lambda>xs d. d\<lparr>candidate_pipeline := xs\<rparr>)\<rparr>"

definition applications_c :: "application_doc collection" where
  "applications_c =
     \<lparr>getc = (\<lambda>d. Some (applications d)), putc = (\<lambda>xs d. d\<lparr>applications := xs\<rparr>)\<rparr>"

definition interviews_c :: "interview_doc collection" where
  "interviews_c =
     \<lparr>getc = (\<lambda>d. Some (interviews d)), putc = (\<lambda>xs d. d\<lparr>interviews := xs\<rparr>)\<rparr>"

definition schedule_events_c :: "schedule_event collection" where
  "schedule_events_c =
     \<lparr>getc = (\<lambda>d. Some (schedule_events d)), putc = (\<lambda>xs d. d\<lparr>schedule_events := xs\<rparr>)\<rparr>"

definition tests_c :: "test_doc collection" where
  "tests_c = \<lparr>getc = (\<lambda>d. Some (tests d)), putc = (\<lambda>xs d. d\<lparr>tests := xs\<rparr>)\<rparr>"

definition test_submissions_c :: "test_submission collection" where
  "test_submissions_c =
     \<lparr>getc = (\<lambda>d. Some (test_submissions d)), putc = (\<lambda>xs d. d\<lparr>test_submissions := xs\<rparr>)\<rparr>"

definition job_offers_c :: "job_offer collection" where
  "job_offers_c =
     \<lparr>getc = (\<lambda>d. Some (job_offers d)), putc = (\<lambda>xs d. d\<lparr>job_offers := xs\<rparr>)\<rparr>"

definition missing_c :: "'a collection" where
  \<comment> \<open>a name that is no attribute of the connection object\<close>
  "missing_c = \<lparr>getc = (\<lambda>d. None), putc = (\<lambda>xs d. d)\<rparr>"

fun update_first :: "('a \<Rightarrow> bool) \<Rightarrow> ('a \<Rightarrow> 'a) \<Rightarrow> 'a list \<Rightarrow> 'a list" where
  "update_first q u [] = []"
| "update_first q u (x # xs) = (if q x then u x # xs else x # update_first q u xs)"

definition insert_one :: "database \<Rightarrow> 'a collection \<Rightarrow> 'a \<Rightarrow> exn + database" where
  "insert_one db c document =
     (if \<not> client db then Inl DatabaseNotAvailable
      else case getc c db of
             None \<Rightarrow> Inl CollectionNotAvailable
           | Some docs \<Rightarrow> Inr (putc c (docs @ [document]) db))"

definition find_one :: "database \<Rightarrow> 'a collection \<Rightarrow> ('a \<Rightarrow> bool) \<Rightarrow> 'a option" where
  "find_one db c query =
     (if \<not> client db then None
      else case getc c db of
             None \<Rightarrow> None
           | Some docs \<Rightarrow> List.find query docs)"

definition find_many :: "database \<Rightarrow> 'a collection \<Rightarrow> ('a \<Rightarrow> bool) \<Rightarrow> 'a list" where
  "find_many db c query =
     (if \<not> client db then []
      else case getc c db of
             None \<Rightarrow> []
           | Some docs \<Rightarrow> filter query docs)"

definition update_one ::
  "database \<Rightarrow> 'a collection \<Rightarrow> ('a \<Rightarrow> bool) \<Rightarrow> ('a \<Rightarrow> 'a) \<Rightarrow> database \<times> bool" where
  \<comment> \<open>the second component is \<^verbatim>\<open>result.modified_count > 0\<close>\<close>
  "update_one db c query upd =
     (if \<not> client db then (db, False)
      else case getc c db of
             None \<Rightarrow> (db, False)
           | Some docs \<Rightarrow>
               (putc c (update_first query upd docs) db,
                (case List.find query docs of None \<Rightarrow> False | Some d \<Rightarrow> upd d \<noteq> d)))"

subsection \<open>Interview service\<close>

text \<open>
  \<^verbatim>\<open>check_interview_conflicts\<close> answers \<open>False\<close> when anything in it raises: here the
  two sums of a date and the duration.
\<close>

definition check_interview_conflicts :: "database \<Rightarrow> string \<Rightarrow> datetime \<Rightarrow> int \<Rightarrow> bool" where
  "check_interview_conflicts db hr_id scheduled_datetime duration_minutes =
     (let start_time = scheduled_datetime
      in case timedelta (minutes duration_minutes) of
           Inl e \<Rightarrow> False
         | Inr duration \<Rightarrow>
             (case datetime_add scheduled_datetime duration of
                Inl e \<Rightarrow> False
              | Inr end_time \<Rightarrow>
                  (case datetime_add start_time (- duration) of
                     Inl e \<Rightarrow> False
                   | Inr earliest \<Rightarrow>
                       (let conflicting_interviews =
                              find_many db interviews_c
                                (\<lambda>iv. i_hr_id iv = hr_id
                                    \<and> (i_status iv = ''Scheduled''
                                        \<or> i_status iv = ''In Progress'')
                                    \<and> i_scheduled_datetime iv < end_time
                                    \<and> i_scheduled_datetime iv \<ge> earliest)
                        in length conflicting_interviews > 0))))"

definition InterviewService_update_candidate_pipeline ::
  "database \<Rightarrow> string \<Rightarrow> string \<Rightarrow> datetime \<Rightarrow> database" where
  "InterviewService_update_candidate_pipeline db app_id stage now =
     (case find_one db candidate_pipeline_c (\<lambda>p. application_id p = app_id) of
        Some pipeline_data \<Rightarrow>
          (let history =
                 (case stage_history pipeline_data of None \<Rightarrow> [] | Some h \<Rightarrow> h)
                 @ [\<lparr>h_stage = stage, h_timestamp = now,
                     h_notes = ''Automated update: '' @ stage\<rparr>]
           in fst (update_one db candidate_pipeline_c (\<lambda>p. application_id p = app_id)
                     (\<lambda>p. p\<lparr>current_stage := Some stage, stage_history := Some history,
                            updated_at := Some now\<rparr>)))
      | None \<Rightarrow>
          (let pipeline =
                 \<lparr>application_id = app_id, job_id = [], candidate_id = [],
                  current_stage = Some stage,
                  stage_history = Some [\<lparr>h_stage = stage, h_timestamp = now,
                                          h_notes = ''Initial stage: '' @ stage\<rparr>],
                  next_action = [], next_action_date = None, updated_at = None\<rparr>
           in case ObjectId app_id of
                Inl e \<Rightarrow> db
              | Inr oid \<Rightarrow>
                  (let pipeline' =
                         (case find_one db applications_c (\<lambda>a. a_id a = oid) of
                            Some a \<Rightarrow> pipeline\<lparr>job_id := a_job_id a, candidate_id := a_user_id a\<rparr>
                          | None \<Rightarrow> pipeline)
                   in case insert_one db candidate_pipeline_c pipeline' of
                        Inl e \<Rightarrow> db
                      | Inr db' \<Rightarrow> db')))"

text \<open>
  \<^verbatim>\<open>schedule_interview\<close> logs and re-raises: the result carries the store as it is
  when the exception leaves.
\<close>

definition schedule_interview ::
  "database \<Rightarrow> string \<Rightarrow> string \<Rightarrow> string \<Rightarrow> string \<Rightarrow> string \<Rightarrow> datetime \<Rightarrow> int \<Rightarrow> datetime
     \<Rightarrow> database \<times> (exn + unit)" where
  "schedule_interview db app_id job candidate hr_id interview_type scheduled_datetime
       duration_minutes now =
     (case insert_one db interviews_c
             \<lparr>i_application_id = app_id, i_job_id = job, i_candidate_id = candidate,
              i_hr_id = hr_id, i_interview_type = interview_type,
              i_scheduled_datetime = scheduled_datetime,
              i_duration_minutes = duration_minutes, i_status = ''Scheduled''\<rparr> of
        Inl e \<Rightarrow> (db, Inl e)
      | Inr db1 \<Rightarrow>
          (case ObjectId app_id of
             Inl e \<Rightarrow> (db1, Inl e)
           | Inr oid \<Rightarrow>
               (let db2 = fst (update_one db1 applications_c (\<lambda>a. a_id a = oid)
                                 (\<lambda>a. a\<lparr>a_status := ''Interview Scheduled'',
                                        a_updated_at := Some now\<rparr>));
                    db3 = InterviewService_update_candidate_pipeline db2 app_id
                            ''Interview Scheduled'' now
                in (db3, Inr ()))))"

subsection \<open>Offer service\<close>

definition OfferService_update_candidate_pipeline ::
  "database \<Rightarrow> string \<Rightarrow> string \<Rightarrow> datetime \<Rightarrow> database" where
  "OfferService_update_candidate_pipeline db app_id stage now =
     fst (update_one db candidate_pipeline_c (\<lambda>p. application_id p = app_id)
            (\<lambda>p. p\<lparr>current_stage := Some stage, updated_at := Some now\<rparr>))"

subsection \<open>Workflow service\<close>

datatype WorkflowStage = APPLIED | SCREENING | TEST | INTERVIEW | OFFER | HIRED | REJECTED

fun stage_value :: "WorkflowStage \<Rightarrow> string" where
  "stage_value APPLIED = ''Applied''"
| "stage_value SCREENING = ''Screening''"
| "stage_value TEST = ''Test''"
| "stage_value INTERVIEW = ''Interview''"
| "stage_value OFFER = ''Offer''"
| "stage_value HIRED = ''Hired''"
| "stage_value REJECTED = ''Rejected''"

definition WorkflowStage_of :: "string \<Rightarrow> exn + WorkflowStage" where
  \<comment> \<open>the enum's lookup by value, \<^verbatim>\<open>WorkflowStage(s)\<close>\<close>
  "WorkflowStage_of s =
     (if s = ''Applied'' then Inr APPLIED
      else if s = ''Screening'' then Inr SCREENING
      else if s = ''Test'' then Inr TEST
      else if s = ''Interview'' then Inr INTERVIEW
      else if s = ''Offer'' then Inr OFFER
      else if s = ''Hired'' then Inr HIRED
      else if s = ''Rejected'' then Inr REJECTED
      else Inl ValueError)"

fun stage_transitions :: "WorkflowStage \<Rightarrow> WorkflowStage list" where
  "stage_transitions APPLIED = [SCREENING, REJECTED]"
| "stage_transitions SCREENING = [TEST, INTERVIEW, REJECTED]"
| "stage_transitions TEST = [INTERVIEW, REJECTED]"
| "stage_transitions INTERVIEW = [OFFER, REJECTED]"
| "stage_transitions OFFER = [HIRED, REJECTED]"
| "stage_transitions HIRED = []"
| "stage_transitions REJECTED = []"

fun get_next_action :: "WorkflowStage \<Rightarrow> datetime \<Rightarrow> string \<times> datetime option" where
  "get_next_action APPLIED now = (''Initial screening'', Some (now + days 1))"
| "get_next_action SCREENING now = (''Schedule assessment test'', Some (now + days 2))"
| "get_next_action TEST now = (''Schedule interview'', Some (now + days 3))"
| "get_next_action INTERVIEW now = (''Prepare job offer'', Some (now + days 2))"
| "get_next_action OFFER now = (''Await candidate response'', Some (now + days 7))"
| "get_next_action HIRED now = (''Onboarding preparation'', Some (now + days 1))"
| "get_next_action REJECTED now = (''Send rejection notification'', Some (now + hours 24))"

definition schedule_screening :: "database \<Rightarrow> string \<Rightarrow> datetime \<Rightarrow> database" where
  "schedule_screening db app_id now =
     (case ObjectId app_id of
        Inl e \<Rightarrow> db
      | Inr oid \<Rightarrow>
          (case find_one db applications_c (\<lambda>a. a_id a = oid) of
             None \<Rightarrow> db
           | Some application_data \<Rightarrow>
               (case insert_one db schedule_events_c
                       \<lparr>e_job_id = a_job_id application_data, e_event_type = ''Screening'',
                        e_title = ''Initial Application Screening'',
                        e_scheduled_datetime = now + hours 24, e_status = ''Scheduled'',
                        e_participants = [a_hr_id application_data],
                        e_metadata = [(''application_id'', app_id)]\<rparr> of
                  Inl e \<Rightarrow> db
                | Inr db' \<Rightarrow> db')))"

definition start_test_submission ::
  "database \<Rightarrow> string \<Rightarrow> string \<Rightarrow> string \<Rightarrow> exn + database" where
  "start_test_submission db test_id app_id candidate =
     insert_one db test_submissions_c
       \<lparr>ts_test_id = test_id, ts_application_id = app_id, ts_candidate_id = candidate,
        ts_status = ''In Progress''\<rparr>"

definition schedule_test :: "database \<Rightarrow> string \<Rightarrow> datetime \<Rightarrow> database" where
  "schedule_test db app_id now =
     (case ObjectId app_id of
        Inl e \<Rightarrow> db
      | Inr oid \<Rightarrow>
          (case find_one db applications_c (\<lambda>a. a_id a = oid) of
             None \<Rightarrow> db
           | Some application_data \<Rightarrow>
               (case find_one db tests_c
                       (\<lambda>t. t_job_id t = a_job_id application_data \<and> t_status t = ''Active'') of
                  None \<Rightarrow> db
                | Some test_data \<Rightarrow>
                    (case start_test_submission db (t_id test_data) app_id
                            (a_user_id application_data) of
                       Inl e \<Rightarrow> db
                     | Inr db1 \<Rightarrow>
                         (case insert_one db1 schedule_events_c
                                 \<lparr>e_job_id = a_job_id application_data, e_event_type = ''Test'',
                                  e_title = ''Assessment Test'',
                                  e_scheduled_datetime = now + days 2,
                                  e_status = ''Scheduled'',
                                  e_participants =
                                    [a_user_id application_data, a_hr_id application_data],
                                  e_metadata =
                                    [(''application_id'', app_id),
                                     (''test_id'', t_id test_data)]\<rparr> of
                            Inl e \<Rightarrow> db1
                          | Inr db2 \<Rightarrow> db2)))))"

definition business_hours :: "int list" where
  \<comment> \<open>\<^verbatim>\<open>range(9, 17)\<close>\<close>
  "business_hours = [9, 10, 11, 12, 13, 14, 15, 16]"

fun scan_hours :: "database \<Rightarrow> string \<Rightarrow> datetime \<Rightarrow> int list \<Rightarrow> datetime option" where
  "scan_hours db hr_id candidate_date [] = None"
| "scan_hours db hr_id candidate_date (hour # rest) =
     (let slot_time = replace_hour candidate_date hour;
          has_conflict = check_interview_conflicts db hr_id slot_time 60
      in if \<not> has_conflict then Some slot_time
         else scan_hours db hr_id candidate_date rest)"

text \<open>
  The loop over the days. An \<^verbatim>\<open>OverflowError\<close> of \<^verbatim>\<open>now + timedelta(days=day_offset)\<close>
  leaves the loop for the \<^verbatim>\<open>except\<close> clause, which returns \<^verbatim>\<open>None\<close>.
\<close>

fun scan_days :: "database \<Rightarrow> string \<Rightarrow> datetime \<Rightarrow> int list \<Rightarrow> datetime option" where
  "scan_days db hr_id now [] = None"
| "scan_days db hr_id now (day_offset # rest) =
     (case timedelta (days day_offset) of
        Inl e \<Rightarrow> None
      | Inr d \<Rightarrow>
          (case datetime_add now d of
             Inl e \<Rightarrow> None
           | Inr candidate_date \<Rightarrow>
               if weekday candidate_date \<ge> 5 then scan_days db hr_id now rest
               else case scan_hours db hr_id candidate_date business_hours of
                      Some slot_time \<Rightarrow> Some slot_time
                    | None \<Rightarrow> scan_days db hr_id now rest))"

definition find_next_available_slot ::
  "database \<Rightarrow> string \<Rightarrow> datetime \<Rightarrow> nat \<Rightarrow> datetime option" where
  \<comment> \<open>\<^verbatim>\<open>range(preferred_days)\<close> is \<open>0, \<dots>, preferred_days - 1\<close>\<close>
  "find_next_available_slot db hr_id now preferred_days =
     scan_days db hr_id now (map int [0..<preferred_days])"

definition schedule_interview_step :: "database \<Rightarrow> string \<Rightarrow> datetime \<Rightarrow> database" where
  "schedule_interview_step db app_id now =
     (case ObjectId app_id of
        Inl e \<Rightarrow> db
      | Inr oid \<Rightarrow>
          (case find_one db applications_c (\<lambda>a. a_id a = oid) of
             None \<Rightarrow> db
           | Some application_data \<Rightarrow>
               (let hr_id = a_hr_id application_data
                in case find_next_available_slot db hr_id now 3 of
                     None \<Rightarrow> db
                   | Some interview_time \<Rightarrow>
                       fst (schedule_interview db app_id (a_job_id application_data)
                              (a_user_id application_data) hr_id ''Technical''
                              interview_time 60 now))))"

definition prepare_offer :: "database \<Rightarrow> string \<Rightarrow> datetime \<Rightarrow> database" where
  "prepare_offer db app_id now =
     (case ObjectId app_id of
        Inl e \<Rightarrow> db
      | Inr oid \<Rightarrow>
          (case find_one db applications_c (\<lambda>a. a_id a = oid) of
             None \<Rightarrow> db
           | Some application_data \<Rightarrow>
               (case insert_one db job_offers_c
                       \<lparr>o_application_id = app_id, o_job_id = a_job_id application_data,
                        o_candidate_id = a_user_id application_data,
                        o_hr_id = a_hr_id application_data, o_status = ''Draft'',
                        o_expiry_date = Some (now + days 7)\<rparr> of
                  Inl e \<Rightarrow> db
                | Inr db1 \<Rightarrow>
                    (case insert_one db1 schedule_events_c
                            \<lparr>e_job_id = a_job_id application_data, e_event_type = ''Offer'',
                             e_title = ''Prepare Job Offer'',
                             e_scheduled_datetime = now + hours 48, e_status = ''Scheduled'',
                             e_participants = [a_hr_id application_data],
                             e_metadata = [(''application_id'', app_id)]\<rparr> of
                       Inl e \<Rightarrow> db1
                     | Inr db2 \<Rightarrow> db2))))"

fun schedule_next_steps :: "database \<Rightarrow> string \<Rightarrow> WorkflowStage \<Rightarrow> datetime \<Rightarrow> database" where
  "schedule_next_steps db app_id SCREENING now = schedule_screening db app_id now"
| "schedule_next_steps db app_id TEST now = schedule_test db app_id now"
| "schedule_next_steps db app_id INTERVIEW now = schedule_interview_step db app_id now"
| "schedule_next_steps db app_id OFFER now = prepare_offer db app_id now"
| "schedule_next_steps db app_id stage now = db"

text \<open>
  The body of \<^verbatim>\<open>advance_candidate_stage\<close> inside its \<^verbatim>\<open>try\<close>: the store as the body
  leaves it, and the value it returns or the exception it raises.
  \<^verbatim>\<open>_send_stage_notification\<close> only reads the application and sends mail.
\<close>

definition advance_body ::
  "database \<Rightarrow> string \<Rightarrow> string \<Rightarrow> string \<Rightarrow> bool \<Rightarrow> datetime \<Rightarrow> database \<times> (exn + bool)" where
  "advance_body db app_id new_stage notes auto_schedule now =
     (case find_one db candidate_pipeline_c (\<lambda>p. application_id p = app_id) of
        None \<Rightarrow> (db, Inr False)
      | Some pipeline_data \<Rightarrow>
          (case current_stage pipeline_data of
             None \<Rightarrow> (db, Inl KeyError)
           | Some cs \<Rightarrow>
               (case WorkflowStage_of cs of
                  Inl e \<Rightarrow> (db, Inl e)
                | Inr current \<Rightarrow>
                    (case WorkflowStage_of new_stage of
                       Inl e \<Rightarrow> (db, Inl e)
                     | Inr target \<Rightarrow>
                         if target \<notin> set (stage_transitions current)
                         then (db, Inr False)
                         else
                           (let history =
                                  (case stage_history pipeline_data of
                                     None \<Rightarrow> [] | Some h \<Rightarrow> h)
                                  @ [\<lparr>h_stage = stage_value target, h_timestamp = now,
                                      h_notes =
                                        (if notes \<noteq> [] then notes
                                         else ''Advanced from '' @ stage_value current
                                              @ '' to '' @ stage_value target)\<rparr>];
                                na = get_next_action target now;
                                db1 = fst (update_one db candidate_pipeline_c
                                             (\<lambda>p. application_id p = app_id)
                                             (\<lambda>p. p\<lparr>current_stage := Some (stage_value target),
                                                    stage_history := Some history,
                                                    next_action := fst na,
                                                    next_action_date := snd na,
                                                    updated_at := Some now\<rparr>))
                            in case ObjectId app_id of
                                 Inl e \<Rightarrow> (db1, Inl e)
                               | Inr oid \<Rightarrow>
                                   (let db2 = fst (update_one db1 applications_c
                                                     (\<lambda>a. a_id a = oid)
                                                     (\<lambda>a. a\<lparr>a_status := stage_value target,
                                                            a_updated_at := Some now\<rparr>));
                                        db3 = (if auto_schedule
                                               then schedule_next_steps db2 app_id target now
                                               else db2)
                                    in (db3, Inr True)))))))"

definition advance_candidate_stage ::
  "database \<Rightarrow> string \<Rightarrow> string \<Rightarrow> string \<Rightarrow> bool \<Rightarrow> datetime \<Rightarrow> database \<times> bool" where
  "advance_candidate_stage db app_id new_stage notes auto_schedule now =
     (case advance_body db app_id new_stage notes auto_schedule now of
        (db', Inr r) \<Rightarrow> (db', r)
      | (db', Inl e) \<Rightarrow> (db', False))"

definition initiate_hiring_workflow :: "database \<Rightarrow> string \<Rightarrow> datetime \<Rightarrow> database \<times> bool" where
  "initiate_hiring_workflow db app_id now =
     (case ObjectId app_id of
        Inl e \<Rightarrow> (db, False)
      | Inr oid \<Rightarrow>
          (case find_one db applications_c (\<lambda>a. a_id a = oid) of
             None \<Rightarrow> (db, False)
           | Some application_data \<Rightarrow>
               (case insert_one db candidate_pipeline_c
                       \<lparr>application_id = app_id, job_id = a_job_id application_data,
                        candidate_id = a_user_id application_data,
                        current_stage = Some (stage_value APPLIED),
                        stage_history = Some [\<lparr>h_stage = stage_value APPLIED,
                                                h_timestamp = now,
                                                h_notes = ''Application received''\<rparr>],
                        next_action = ''Initial screening'',
                        next_action_date = Some (now + days 1), updated_at = None\<rparr> of
                  Inl e \<Rightarrow> (db, False)
                | Inr db1 \<Rightarrow> (schedule_screening db1 app_id now, True))))"

subsection \<open>Pipeline overview\<close>

text \<open>
  What iterating the cursor of \<^verbatim>\<open>find_many\<close> yields: a document, a value that is no
  dictionary (skipped with a warning), or an exception of the driver. The two
  dictionaries are association lists in insertion order. The quotient
  \<^verbatim>\<open>(count / total) * 100\<close> is a Python float: its two operations are the parameters
  \<open>float_div\<close> and \<open>float_mul\<close>.
\<close>

datatype 'a cursor_item = Document 'a | NotADict | Raises exn

record 'f overview =
  total_candidates :: int
  by_stage :: "(string \<times> int) list"
  conversion_rates :: "(string \<times> 'f) list"

definition safe_default :: "'f overview" where
  "safe_default = \<lparr>total_candidates = 0, by_stage = [], conversion_rates = []\<rparr>"

fun dict_set :: "('k \<times> 'v) list \<Rightarrow> 'k \<Rightarrow> 'v \<Rightarrow> ('k \<times> 'v) list" where
  "dict_set [] k v = [(k, v)]"
| "dict_set ((k', v') # kvs) k v =
     (if k' = k then (k, v) # kvs else (k', v') # dict_set kvs k v)"

definition dict_get :: "('k \<times> 'v) list \<Rightarrow> 'k \<Rightarrow> 'v \<Rightarrow> 'v" where
  "dict_get kvs k dflt = (case map_of kvs k of None \<Rightarrow> dflt | Some v \<Rightarrow> v)"

fun count_stages ::
  "pipeline_doc cursor_item list \<Rightarrow> (string \<times> int) list \<Rightarrow> int
     \<Rightarrow> exn + ((string \<times> int) list \<times> int)" where
  "count_stages [] stage_counts total_n = Inr (stage_counts, total_n)"
| "count_stages (NotADict # rest) stage_counts total_n = count_stages rest stage_counts total_n"
| "count_stages (Raises e # rest) stage_counts total_n = Inl e"
| "count_stages (Document pipeline # rest) stage_counts total_n =
     (let stage = (case current_stage pipeline of None \<Rightarrow> ''Unknown'' | Some s \<Rightarrow> s)
      in count_stages rest
           (dict_set stage_counts stage (dict_get stage_counts stage 0 + 1)) (total_n + 1))"

definition overview_of_cursor ::
  "(int \<Rightarrow> int \<Rightarrow> 'f) \<Rightarrow> ('f \<Rightarrow> int \<Rightarrow> 'f) \<Rightarrow> pipeline_doc cursor_item list \<Rightarrow> 'f overview" where
  "overview_of_cursor float_div float_mul pipelines =
     (case count_stages pipelines [] 0 of
        Inl e \<Rightarrow> safe_default
      | Inr (stage_counts, total_n) \<Rightarrow>
          \<lparr>total_candidates = total_n,
           by_stage = stage_counts,
           conversion_rates =
             (if total_n > 0
              then map (\<lambda>(stage, count). (stage, float_mul (float_div count total_n) 100)) stage_counts
              else [])\<rparr>)"

definition get_pipeline_overview ::
  "(int \<Rightarrow> int \<Rightarrow> 'f) \<Rightarrow> ('f \<Rightarrow> int \<Rightarrow> 'f) \<Rightarrow> database \<Rightarrow> string option \<Rightarrow> 'f overview" where
  \<comment> \<open>\<^verbatim>\<open>if job_id:\<close> holds for a string that is neither \<^verbatim>\<open>None\<close> nor empty\<close>
  "get_pipeline_overview float_div float_mul db job =
     overview_of_cursor float_div float_mul
       (map Document
          (find_many db candidate_pipeline_c
             (\<lambda>p. case job of
                     None \<Rightarrow> True
                   | Some j \<Rightarrow> j = [] \<or> job_id p = j)))"

subsection \<open>Signaling relay\<close>

text \<open>
  The relay state of \<^verbatim>\<open>VideoService\<close>, with the network made explicit: \<open>sent\<close> is
  what each socket has been sent, in order, and \<open>broken\<close> tells the sockets whose
  \<^verbatim>\<open>send\<close> raises. A handler is three pieces: what it does on connection, one turn of
  its receive loop, and its \<^verbatim>\<open>finally\<close> clause. Handlers of different sockets
  interleave at these pieces. The keep-alive thread and its pings are not modelled.
\<close>

type_synonym sock = nat

datatype payload =
    Offer string
  | Answer string
  | Ice string
  | Ping
  | HrOnline
  | UserOnline
  | Other string

text \<open>
  A received frame: empty (the socket closed), text that \<^verbatim>\<open>json.loads\<close> or a key
  lookup rejects, or a well-formed message.
\<close>

datatype frame = Empty | Malformed | Json payload

record relay =
  hr_sockets :: "string \<rightharpoonup> sock"
  user_sockets :: "string \<rightharpoonup> sock"
  pending_offers :: "string \<rightharpoonup> string"
  pending_answers :: "string \<rightharpoonup> string"
  pending_ice :: "string \<rightharpoonup> string list"
  pending_ice_hr :: "string \<rightharpoonup> string list"
  sent :: "sock \<Rightarrow> payload list"
  broken :: "sock \<Rightarrow> bool"

definition send :: "relay \<Rightarrow> sock \<Rightarrow> payload \<Rightarrow> exn + relay" where
  "send s ws m =
     (if broken s ws then Inl ConnectionClosed
      else Inr (s\<lparr>sent := (sent s)(ws := sent s ws @ [m])\<rparr>))"

definition try_send :: "relay \<Rightarrow> sock \<Rightarrow> payload \<Rightarrow> relay" where
  \<comment> \<open>a \<^verbatim>\<open>send\<close> inside its own \<^verbatim>\<open>try\<close>, the exception printed\<close>
  "try_send s ws m = (case send s ws m of Inl e \<Rightarrow> s | Inr s' \<Rightarrow> s')"

fun send_buffered_ice :: "relay \<Rightarrow> sock \<Rightarrow> string list \<Rightarrow> relay" where
  "send_buffered_ice s ws [] = s"
| "send_buffered_ice s ws (c # cs) = send_buffered_ice (try_send s ws (Ice c)) ws cs"

definition hr_connect :: "relay \<Rightarrow> sock \<Rightarrow> string \<Rightarrow> relay" where
  "hr_connect s ws app_id =
     (let s1 = s\<lparr>hr_sockets := (hr_sockets s)(app_id \<mapsto> ws)\<rparr>;
          s2 = (case user_sockets s1 app_id of
                  Some u \<Rightarrow> try_send s1 u HrOnline
                | None \<Rightarrow> s1)
      in case pending_ice_hr s2 app_id of
           Some cs \<Rightarrow> send_buffered_ice s2 ws cs
         | None \<Rightarrow> s2)"

definition hr_cleanup :: "relay \<Rightarrow> string \<Rightarrow> relay" where
  "hr_cleanup s app_id = s\<lparr>hr_sockets := (hr_sockets s)(app_id := None)\<rparr>"

text \<open>One turn of the HR loop; the flag tells whether the loop goes on.\<close>

fun hr_message :: "relay \<Rightarrow> string \<Rightarrow> frame \<Rightarrow> relay \<times> bool" where
  "hr_message s app_id Empty = (hr_cleanup s app_id, False)"
| "hr_message s app_id Malformed = (hr_cleanup s app_id, False)"
| "hr_message s app_id (Json (Offer offer)) =
     (case user_sockets s app_id of
        Some u \<Rightarrow>
          (case send s u (Offer offer) of
             Inl e \<Rightarrow> (hr_cleanup s app_id, False)
           | Inr s' \<Rightarrow> (s', True))
      | None \<Rightarrow> (s\<lparr>pending_offers := (pending_offers s)(app_id \<mapsto> offer)\<rparr>, True))"
| "hr_message s app_id (Json (Ice ice)) =
     (let s1 = s\<lparr>pending_ice :=
                   (pending_ice s)(app_id \<mapsto>
                      (case pending_ice s app_id of None \<Rightarrow> [] | Some cs \<Rightarrow> cs) @ [ice])\<rparr>
      in case user_sockets s1 app_id of
           Some u \<Rightarrow> (try_send s1 u (Ice ice), True)
         | None \<Rightarrow> (s1, True))"
| "hr_message s app_id (Json m) = (s, True)"

definition user_connect :: "relay \<Rightarrow> sock \<Rightarrow> string \<Rightarrow> relay" where
  "user_connect s ws app_id =
     (let s1 = s\<lparr>user_sockets := (user_sockets s)(app_id \<mapsto> ws)\<rparr>;
          s2 = (case pending_offers s1 app_id of
                  Some offer \<Rightarrow>
                    (let t = try_send s1 ws (Offer offer)
                     in t\<lparr>pending_offers := (pending_offers t)(app_id := None)\<rparr>)
                | None \<Rightarrow> s1);
          s3 = (case pending_ice s2 app_id of
                  Some cs \<Rightarrow> send_buffered_ice s2 ws cs
                | None \<Rightarrow> s2)
      in case hr_sockets s3 app_id of
           Some h \<Rightarrow> try_send s3 h UserOnline
         | None \<Rightarrow> s3)"

definition user_cleanup :: "relay \<Rightarrow> string \<Rightarrow> relay" where
  "user_cleanup s app_id = s\<lparr>user_sockets := (user_sockets s)(app_id := None)\<rparr>"

fun user_message :: "relay \<Rightarrow> string \<Rightarrow> frame \<Rightarrow> relay \<times> bool" where
  "user_message s app_id Empty = (user_cleanup s app_id, False)"
| "user_message s app_id Malformed = (user_cleanup s app_id, False)"
| "user_message s app_id (Json (Answer answer)) =
     (case hr_sockets s app_id of
        Some h \<Rightarrow>
          (case send s h (Answer answer) of
             Inl e \<Rightarrow> (user_cleanup s app_id, False)
           | Inr s' \<Rightarrow> (s', True))
      | None \<Rightarrow> (s\<lparr>pending_answers := (pending_answers s)(app_id \<mapsto> answer)\<rparr>, True))"
| "user_message s app_id (Json (Ice ice)) =
     (let s1 = s\<lparr>pending_ice_hr :=
                   (pending_ice_hr s)(app_id \<mapsto>
                      (case pending_ice_hr s app_id of None \<Rightarrow> [] | Some cs \<Rightarrow> cs) @ [ice])\<rparr>
      in case hr_sockets s1 app_id of
           Some h \<Rightarrow> (try_send s1 h (Ice ice), True)
         | None \<Rightarrow> (s1, True))"
| "user_message s app_id (Json m) = (s, True)"

text \<open>A run of ICE frames through one side's loop.\<close>

fun hr_sends_ice :: "relay \<Rightarrow> string \<Rightarrow> string list \<Rightarrow> relay" where
  "hr_sends_ice s app_id [] = s"
| "hr_sends_ice s app_id (c # cs) =
     hr_sends_ice (fst (hr_message s app_id (Json (Ice c)))) app_id cs"

fun user_sends_ice :: "relay \<Rightarrow> string \<Rightarrow> string list \<Rightarrow> relay" where
  "user_sends_ice s app_id [] = s"
| "user_sends_ice s app_id (c # cs) =
     user_sends_ice (fst (user_message s app_id (Json (Ice c)))) app_id cs"

definition initial_relay :: relay where
  "initial_relay =
     \<lparr>hr_sockets = Map.empty, user_sockets = Map.empty, pending_offers = Map.empty,
      pending_answers = Map.empty, pending_ice = Map.empty, pending_ice_hr = Map.empty,
      sent = (\<lambda>ws. []), broken = (\<lambda>ws. False)\<rparr>"

subsection \<open>The stage table as the specification words it\<close>

definition allowed_edges :: "(string \<times> string) list" where
  "allowed_edges =
     [(''Applied'', ''Screening''), (''Applied'', ''Rejected''),
      (''Screening'', ''Test''), (''Screening'', ''Interview''), (''Screening'', ''Rejected''),
      (''Test'', ''Interview''), (''Test'', ''Rejected''),
      (''Interview'', ''Offer''), (''Interview'', ''Rejected''),
      (''Offer'', ''Hired''), (''Offer'', ''Rejected'')]"

definition stage_values :: "string list" where
  "stage_values =
     [''Applied'', ''Screening'', ''Test'', ''Interview'', ''Offer'', ''Hired'', ''Rejected'']"

definition pipeline_of :: "database \<Rightarrow> string \<Rightarrow> pipeline_doc option" where
  "pipeline_of db app_id = find_one db candidate_pipeline_c (\<lambda>p. application_id p = app_id)"

definition pipeline_stage :: "database \<Rightarrow> string \<Rightarrow> string option" where
  "pipeline_stage db app_id =
     (case pipeline_of db app_id of None \<Rightarrow> None | Some p \<Rightarrow> current_stage p)"

definition history_of :: "pipeline_doc \<Rightarrow> history_entry list" where
  "history_of p = (case stage_history p of None \<Rightarrow> [] | Some h \<Rightarrow> h)"

subsection \<open>A small store for concrete runs\<close>

definition app1 :: string where
  "app1 = ''64b7f0c2a1d3e4f5a6b7c8d9''"

definition application1 :: application_doc where
  "application1 =
     \<lparr>a_id = app1, a_job_id = ''job1'', a_user_id = ''user1'', a_hr_id = ''hr1'',
      a_applicant_name = ''Asha'', a_email = ''asha@example.org'', a_status = ''Pending'',
      a_updated_at = None\<rparr>"

definition pipeline_at :: "string \<Rightarrow> pipeline_doc" where
  "pipeline_at stage =
     \<lparr>application_id = app1, job_id = ''job1'', candidate_id = ''user1'',
      current_stage = Some stage,
      stage_history = Some [\<lparr>h_stage = stage, h_timestamp = 0, h_notes = ''Application received''\<rparr>],
      next_action = ''Initial screening'', next_action_date = None, updated_at = None\<rparr>"

definition store_at :: "string \<Rightarrow> interview_doc list \<Rightarrow> database" where
  "store_at stage ivs =
     \<lparr>client = True, candidate_pipeline = [pipeline_at stage], applications = [application1],
      interviews = ivs, schedule_events = [], tests = [], test_submissions = [],
      job_offers = []\<rparr>"

definition offline_store :: database where
  "offline_store =
     \<lparr>client = False, candidate_pipeline = [], applications = [], interviews = [],
      schedule_events = [], tests = [], test_submissions = [], job_offers = []\<rparr>"

definition interview_at :: "datetime \<Rightarrow> interview_doc" where
  "interview_at t =
     \<lparr>i_application_id = ''64b7f0c2a1d3e4f5a6b7c8da'', i_job_id = ''job1'',
      i_candidate_id = ''user2'', i_hr_id = ''hr1'', i_interview_type = ''Technical'',
      i_scheduled_datetime = t, i_duration_minutes = 60, i_status = ''Scheduled''\<rparr>"

subsection \<open>The slot search as the specification words it\<close>

text \<open>
  The candidate slots of the horizon, in the order of the search: for each of the next
  \<open>preferred_days\<close> days that is no Saturday or Sunday, the hours 9 to 16.
\<close>

definition candidate_slots :: "datetime \<Rightarrow> nat \<Rightarrow> datetime list" where
  "candidate_slots now preferred_days =
     concat (map (\<lambda>day_offset.
                    if weekday (now + days day_offset) \<ge> 5 then []
                    else map (replace_hour (now + days day_offset)) business_hours)
               (map int [0..<preferred_days]))"

text \<open>
  An existing interview of the HR, scheduled or in progress, in the closed interval
  around the slot (the specification's wording) and in the interval open at its end.
\<close>

definition busy_closed :: "database \<Rightarrow> string \<Rightarrow> datetime \<Rightarrow> bool" where
  "busy_closed db hr_id slot_start =
     list_ex (\<lambda>iv. i_hr_id iv = hr_id
                 \<and> (i_status iv = ''Scheduled'' \<or> i_status iv = ''In Progress'')
                 \<and> slot_start - minutes 60 \<le> i_scheduled_datetime iv
                 \<and> i_scheduled_datetime iv \<le> slot_start + minutes 60)
       (interviews db)"

definition busy_half_open :: "database \<Rightarrow> string \<Rightarrow> datetime \<Rightarrow> bool" where
  "busy_half_open db hr_id slot_start =
     list_ex (\<lambda>iv. i_hr_id iv = hr_id
                 \<and> (i_status iv = ''Scheduled'' \<or> i_status iv = ''In Progress'')
                 \<and> slot_start - minutes 60 \<le> i_scheduled_datetime iv
                 \<and> i_scheduled_datetime iv < slot_start + minutes 60)
       (interviews db)"

definition monday :: datetime where
  \<comment> \<open>2024-01-01T00:00:00, of ordinal 738886, a Monday\<close>
  "monday = days 738885"

definition buffered :: "(string \<rightharpoonup> string list) \<Rightarrow> string \<Rightarrow> string list" where
  \<comment> \<open>the candidates a buffer holds for an application, none when the key is absent\<close>
  "buffered m app_id = (case m app_id of None \<Rightarrow> [] | Some cs \<Rightarrow> cs)"

definition stage_valid :: "pipeline_doc \<Rightarrow> bool" where
  "stage_valid p = (case current_stage p of None \<Rightarrow> False | Some s \<Rightarrow> s \<in> set stage_values)"

definition stages_valid :: "database \<Rightarrow> bool" where
  "stages_valid db = list_all stage_valid (candidate_pipeline db)"

text \<open>
  When the auto-scheduling of \<open>advance_candidate_stage\<close> books an interview: the stage is
  \<open>Interview\<close>, the application is found and the slot search finds a slot.
\<close>

definition books_interview :: "database \<Rightarrow> string \<Rightarrow> string \<Rightarrow> bool \<Rightarrow> datetime \<Rightarrow> bool" where
  "books_interview db app_id new_stage auto_schedule now =
     (auto_schedule \<and> new_stage = ''Interview''
      \<and> (case ObjectId app_id of
            Inl e \<Rightarrow> False
          | Inr oid \<Rightarrow>
              (case find_one db applications_c (\<lambda>a. a_id a = oid) of
                 None \<Rightarrow> False
               | Some a \<Rightarrow> find_next_available_slot db (a_hr_id a) now 3 \<noteq> None)))"

definition busy_three_days :: "interview_doc list" where
  \<comment> \<open>interviews of \<open>hr1\<close> that take every slot of Monday, Tuesday and Wednesday\<close>
  "busy_three_days =
     map (\<lambda>h. interview_at (monday + hours h)) [9, 11, 13, 15, 33, 35, 37, 39, 57, 59, 61, 63]"

section \<open>Verified properties\<close>

subsection \<open>Stage transitions\<close>

lemma WorkflowStage_of_Inr: "WorkflowStage_of s = Inr c \<Longrightarrow> s = stage_value c"
  by (cases c) (simp_all add: WorkflowStage_of_def split: if_splits)

lemma WorkflowStage_of_value: "WorkflowStage_of (stage_value c) = Inr c"
  by (cases c) (simp_all add: WorkflowStage_of_def)

lemma stage_value_in_stage_values: "stage_value c \<in> set stage_values"
  by (cases c) (simp_all add: stage_values_def)

lemma transition_is_edge:
  "t \<in> set (stage_transitions c) \<Longrightarrow> (stage_value c, stage_value t) \<in> set allowed_edges"
  by (cases c; cases t) (simp_all add: allowed_edges_def)

lemma pipeline_stage_store_at: "pipeline_stage (store_at st ivs) app1 = Some st"
  by (simp add: pipeline_stage_def pipeline_of_def find_one_def store_at_def
      candidate_pipeline_c_def pipeline_at_def)

text \<open>
  C1. If the pipeline of the application has no current stage from which the requested
  stage is an edge of the allowed-transition table, \<open>advance_candidate_stage\<close> returns
  \<open>False\<close> and the store, hence the pipeline record, is unchanged.
\<close>

theorem invalid_transition_rejected:
  assumes "\<forall>cs. pipeline_stage db app_id = Some cs \<longrightarrow> (cs, new_stage) \<notin> set allowed_edges"
  shows "advance_candidate_stage db app_id new_stage notes auto_schedule now = (db, False)"
proof (cases "find_one db candidate_pipeline_c (\<lambda>p. application_id p = app_id)")
  case None
  then show ?thesis by (simp add: advance_candidate_stage_def advance_body_def)
next
  case (Some p)
  note p = this
  show ?thesis
  proof (cases "current_stage p")
    case None
    with p show ?thesis by (simp add: advance_candidate_stage_def advance_body_def)
  next
    case (Some cs)
    note cs = this
    show ?thesis
    proof (cases "WorkflowStage_of cs")
      case (Inl e)
      with p cs show ?thesis
        by (simp add: advance_candidate_stage_def advance_body_def)
    next
      case (Inr c)
      note c = this
      show ?thesis
      proof (cases "WorkflowStage_of new_stage")
        case (Inl e)
        with p cs c show ?thesis
          by (simp add: advance_candidate_stage_def advance_body_def)
      next
        case (Inr t)
        have "pipeline_stage db app_id = Some cs"
          using p cs by (simp add: pipeline_stage_def pipeline_of_def)
        with assms have "(cs, new_stage) \<notin> set allowed_edges" by blast
        moreover have "cs = stage_value c" "new_stage = stage_value t"
          using c Inr by (auto dest: WorkflowStage_of_Inr)
        ultimately have "t \<notin> set (stage_transitions c)"
          using transition_is_edge by blast
        with p cs c Inr show ?thesis
          by (simp add: advance_candidate_stage_def advance_body_def)
      qed
    qed
  qed
qed

theorem invalid_transition_rejected_witness:
  "pipeline_stage (store_at ''Applied'' []) app1 = Some ''Applied''
   \<and> (''Applied'', ''Offer'') \<notin> set allowed_edges
   \<and> advance_candidate_stage (store_at ''Applied'' []) app1 ''Offer'' [] True 0
       = (store_at ''Applied'' [], False)"
proof -
  have edge: "(''Applied'', ''Offer'') \<notin> set allowed_edges"
    by (simp add: allowed_edges_def)
  have "\<forall>cs. pipeline_stage (store_at ''Applied'' []) app1 = Some cs
          \<longrightarrow> (cs, ''Offer'') \<notin> set allowed_edges"
    using edge by (simp add: pipeline_stage_store_at)
  from invalid_transition_rejected [OF this] edge show ?thesis
    by (simp add: pipeline_stage_store_at)
qed

text \<open>
  C9. A requested stage that is none of the seven stage values makes the conversion to
  \<open>WorkflowStage\<close> raise before any write; the exception is caught, the call returns
  \<open>False\<close>, and the store is unchanged.
\<close>

theorem unknown_stage_rejected:
  assumes "new_stage \<notin> set stage_values"
  shows "advance_candidate_stage db app_id new_stage notes auto_schedule now = (db, False)"
proof -
  have "WorkflowStage_of new_stage = Inl ValueError"
    using assms by (simp add: WorkflowStage_of_def stage_values_def)
  then show ?thesis
    by (simp add: advance_candidate_stage_def advance_body_def split: option.splits sum.splits)
qed

theorem unknown_stage_rejected_witness:
  "''Interview Scheduled'' \<notin> set stage_values
   \<and> advance_candidate_stage (store_at ''Screening'' []) app1 ''Interview Scheduled'' [] True 0
       = (store_at ''Screening'' [], False)"
proof -
  have h: "''Interview Scheduled'' \<notin> set stage_values"
    by (simp add: stage_values_def)
  from unknown_stage_rejected [OF h] h show ?thesis by simp
qed

subsection \<open>Persistence\<close>

text \<open>
  C8, as stated, fails for \<open>insert_one\<close>: on a disconnected store it raises.
\<close>

theorem insert_one_raises_counterexample:
  "\<not> client offline_store
   \<and> insert_one offline_store candidate_pipeline_c (pipeline_at ''Applied'')
       = Inl DatabaseNotAvailable"
  by (simp add: insert_one_def offline_store_def)

text \<open>
  C8, amended. On a disconnected store \<open>find_one\<close> returns \<open>None\<close>, \<open>find_many\<close> the
  empty list and \<open>update_one\<close> \<open>False\<close>, each leaving the store as it is, for every
  collection; \<open>insert_one\<close> raises.
\<close>

theorem unavailable_store_results:
  assumes "\<not> client db"
  shows "find_one db c query = None
       \<and> find_many db c query = []
       \<and> update_one db c query upd = (db, False)
       \<and> insert_one db c document = Inl DatabaseNotAvailable"
  using assms by (simp add: find_one_def find_many_def update_one_def insert_one_def)

theorem unavailable_store_results_witness:
  "\<not> client offline_store
   \<and> find_one offline_store candidate_pipeline_c (\<lambda>p. application_id p = app1) = None
   \<and> find_many offline_store candidate_pipeline_c (\<lambda>p. application_id p = app1) = []
   \<and> update_one offline_store candidate_pipeline_c (\<lambda>p. application_id p = app1)
        (\<lambda>p. p\<lparr>current_stage := Some ''Test''\<rparr>) = (offline_store, False)
   \<and> insert_one offline_store candidate_pipeline_c (pipeline_at ''Applied'')
        = Inl DatabaseNotAvailable"
proof -
  have h: "\<not> client offline_store" by (simp add: offline_store_def)
  from unavailable_store_results [OF h] h show ?thesis by simp
qed

subsection \<open>Slot search\<close>

lemma slot_in_range:
  assumes "0 \<le> d" and "d \<le> datetime_max" and "h \<in> set business_hours"
  shows "0 \<le> replace_hour d h - minutes 60"
    and "replace_hour d h + minutes 60 \<le> datetime_max"
proof -
  have q: "0 \<le> d div 86400000000" "d div 86400000000 \<le> 3652058"
    using assms(1,2) by (simp_all add: datetime_max_def usec_per_day_def)
  have h: "9 \<le> h" "h \<le> 16"
    using assms(3) by (auto simp add: business_hours_def)
  from q h show "0 \<le> replace_hour d h - minutes 60"
    by (simp add: replace_hour_def minutes_def usec_per_day_def usec_per_hour_def
        usec_per_minute_def)
  from q h show "replace_hour d h + minutes 60 \<le> datetime_max"
    by (simp add: replace_hour_def minutes_def datetime_max_def usec_per_day_def
        usec_per_hour_def usec_per_minute_def)
qed

lemma check_conflicts_busy:
  assumes "client db" and "0 \<le> d" and "d \<le> datetime_max" and "h \<in> set business_hours"
  shows "check_interview_conflicts db hr_id (replace_hour d h) 60
           = busy_half_open db hr_id (replace_hour d h)"
proof -
  have td: "timedelta (minutes 60) = Inr (minutes 60)"
    by (simp add: timedelta_def timedelta_min_def timedelta_max_def minutes_def
        usec_per_minute_def usec_per_day_def)
  from slot_in_range [OF assms(2-4)]
  have up: "datetime_add (replace_hour d h) (minutes 60) = Inr (replace_hour d h + minutes 60)"
    and lo: "datetime_add (replace_hour d h) (- minutes 60) = Inr (replace_hour d h - minutes 60)"
    by (simp_all add: datetime_add_def minutes_def usec_per_minute_def)
  show ?thesis
    using assms(1)
    by (auto simp add: check_interview_conflicts_def td up lo busy_half_open_def find_many_def
        interviews_c_def Let_def list_ex_iff filter_empty_conv)
qed

lemma scan_hours_find:
  "client db \<Longrightarrow> 0 \<le> d \<Longrightarrow> d \<le> datetime_max \<Longrightarrow> set hs \<subseteq> set business_hours \<Longrightarrow>
   scan_hours db hr_id d hs
     = List.find (\<lambda>slot. \<not> busy_half_open db hr_id slot) (map (replace_hour d) hs)"
  by (induction hs) (simp_all add: check_conflicts_busy Let_def)

lemma scan_days_free:
  "client db \<Longrightarrow> scan_days db hr_id now offs = Some t \<Longrightarrow>
   t \<in> set (concat (map (\<lambda>day_offset.
                        if weekday (now + days day_offset) \<ge> 5 then []
                        else map (replace_hour (now + days day_offset)) business_hours) offs))
   \<and> \<not> busy_half_open db hr_id t"
proof (induction offs)
  case Nil
  then show ?case by simp
next
  case (Cons a offs)
  from Cons.prems(2) obtain cd where cd: "datetime_add now (days a) = Inr cd"
    by (auto simp add: timedelta_def split: sum.splits if_splits)
  then have r: "cd = now + days a" "0 \<le> cd" "cd \<le> datetime_max"
    by (auto simp add: datetime_add_def split: if_splits)
  have td: "timedelta (days a) = Inr (days a)"
    using Cons.prems(2) by (auto simp add: timedelta_def split: sum.splits if_splits)
  show ?case
  proof (cases "weekday cd \<ge> 5")
    case True
    with Cons td cd r show ?thesis by simp
  next
    case False
    note hrs = scan_hours_find [OF Cons.prems(1) r(2,3) subset_refl, of hr_id]
    show ?thesis
    proof (cases "scan_hours db hr_id cd business_hours")
      case None
      with Cons td cd r False show ?thesis by simp
    next
      case (Some u)
      with Cons.prems(2) td cd False have "u = t" by simp
      with Some hrs r(1)
      have f: "List.find (\<lambda>slot. \<not> busy_half_open db hr_id slot)
                 (map (replace_hour (now + days a)) business_hours) = Some t"
        by simp
      then have "t \<in> set (map (replace_hour (now + days a)) business_hours)"
        and "\<not> busy_half_open db hr_id t"
        by (auto simp add: find_Some_iff)
      with r(1) False show ?thesis by simp
    qed
  qed
qed

lemma scan_days_busy:
  "client db \<Longrightarrow>
   \<forall>slot \<in> set (concat (map (\<lambda>day_offset.
                        if weekday (now + days day_offset) \<ge> 5 then []
                        else map (replace_hour (now + days day_offset)) business_hours) offs)).
      busy_half_open db hr_id slot \<Longrightarrow>
   scan_days db hr_id now offs = None"
proof (induction offs)
  case Nil
  then show ?case by simp
next
  case (Cons a offs)
  have rest: "scan_days db hr_id now offs = None"
    using Cons by simp
  show ?case
  proof (cases "timedelta (days a)")
    case (Inl e)
    then show ?thesis by simp
  next
    case (Inr d)
    then have d: "d = days a" by (simp add: timedelta_def split: if_splits)
    show ?thesis
    proof (cases "datetime_add now d")
      case (Inl e)
      with Inr show ?thesis by simp
    next
      case (Inr cd)
      then have r: "cd = now + days a" "0 \<le> cd" "cd \<le> datetime_max"
        using d by (auto simp add: datetime_add_def split: if_splits)
      show ?thesis
      proof (cases "weekday cd \<ge> 5")
        case True
        with \<open>timedelta (days a) = Inr d\<close> Inr rest show ?thesis by simp
      next
        case False
        have "scan_hours db hr_id cd business_hours = None"
          using scan_hours_find [OF Cons.prems(1) r(2,3) subset_refl, of hr_id]
            Cons.prems(2) False r(1)
          by (auto simp add: find_None_iff)
        with \<open>timedelta (days a) = Inr d\<close> Inr rest False show ?thesis by simp
      qed
    qed
  qed
qed

text \<open>
  C7, amended. On a connected store a slot the search returns is a candidate slot of the
  horizon with no scheduled or in-progress interview of that HR in the interval
  \<open>[slot - 60 min, slot + 60 min)\<close>, open at its end; and when every candidate slot of the
  horizon has such an interview, the search returns no slot.
\<close>

theorem slot_search_half_open:
  assumes "client db"
  shows "(find_next_available_slot db hr_id now n = Some t
            \<longrightarrow> t \<in> set (candidate_slots now n) \<and> \<not> busy_half_open db hr_id t)
       \<and> ((\<forall>slot \<in> set (candidate_slots now n). busy_half_open db hr_id slot)
            \<longrightarrow> find_next_available_slot db hr_id now n = None)"
  using scan_days_free [OF assms, of hr_id now "map int [0..<n]" t]
    scan_days_busy [OF assms, of now "map int [0..<n]" hr_id]
  by (simp add: find_next_available_slot_def candidate_slots_def)

lemmas slot_eval =
  find_next_available_slot_def business_hours_def check_interview_conflicts_def
  find_many_def interviews_c_def store_at_def interview_at_def
  timedelta_def timedelta_min_def timedelta_max_def datetime_add_def datetime_max_def
  weekday_def replace_hour_def monday_def days_def hours_def minutes_def
  usec_per_day_def usec_per_hour_def usec_per_minute_def Let_def upt_rec

theorem slot_search_half_open_witness:
  "client (store_at ''Interview'' [interview_at (monday + hours 9)])
   \<and> find_next_available_slot (store_at ''Interview'' [interview_at (monday + hours 9)])
        ''hr1'' (monday + hours 8) 3 = Some (monday + hours 11)
   \<and> monday + hours 11 \<in> set (candidate_slots (monday + hours 8) 3)
   \<and> \<not> busy_half_open (store_at ''Interview'' [interview_at (monday + hours 9)])
          ''hr1'' (monday + hours 11)
   \<and> list_all
        (busy_half_open
           (store_at ''Interview''
              (map (\<lambda>h. interview_at (monday + hours h)) [9, 11, 13, 15])) ''hr1'')
        (candidate_slots (monday + hours 8) 1)
   \<and> find_next_available_slot
        (store_at ''Interview'' (map (\<lambda>h. interview_at (monday + hours h)) [9, 11, 13, 15]))
        ''hr1'' (monday + hours 8) 1 = None"
proof -
  let ?d1 = "store_at ''Interview'' [interview_at (monday + hours 9)]"
  let ?d2 = "store_at ''Interview''
               (map (\<lambda>h. interview_at (monday + hours h)) [9, 11, 13, 15])"
  have c1: "client ?d1" and c2: "client ?d2"
    by (simp_all add: store_at_def)
  have r: "find_next_available_slot ?d1 ''hr1'' (monday + hours 8) 3 = Some (monday + hours 11)"
    by (simp add: slot_eval)
  from slot_search_half_open [OF c1, of "''hr1''" "monday + hours 8" 3 "monday + hours 11"] r
  have free: "monday + hours 11 \<in> set (candidate_slots (monday + hours 8) 3)
              \<and> \<not> busy_half_open ?d1 ''hr1'' (monday + hours 11)"
    by blast
  have full: "\<forall>slot \<in> set (candidate_slots (monday + hours 8) 1). busy_half_open ?d2 ''hr1'' slot"
    by (simp add: candidate_slots_def busy_half_open_def slot_eval)
  from slot_search_half_open [OF c2, of "''hr1''" "monday + hours 8" 1] full
  have none: "find_next_available_slot ?d2 ''hr1'' (monday + hours 8) 1 = None"
    by blast
  from c1 r free full none show ?thesis
    by (simp add: list_all_iff)
qed

text \<open>
  C7, as stated, fails at the end of the interval: with an interview at 10:00 the search
  returns 09:00, although 10:00 lies in the closed interval around 09:00.
\<close>

theorem slot_search_closed_interval_counterexample:
  "find_next_available_slot (store_at ''Interview'' [interview_at (monday + hours 10)])
       ''hr1'' (monday + hours 8) 3 = Some (monday + hours 9)
   \<and> busy_closed (store_at ''Interview'' [interview_at (monday + hours 10)])
       ''hr1'' (monday + hours 9)"
  by (simp add: busy_closed_def slot_eval)

subsection \<open>Pipeline overview\<close>

lemma dict_set_keys:
  "map fst (dict_set kvs k v)
     = (if k \<in> fst ` set kvs then map fst kvs else map fst kvs @ [k])"
  by (induction kvs) (auto simp: rev_image_eqI)

lemma dict_set_distinct: "distinct (map fst kvs) \<Longrightarrow> distinct (map fst (dict_set kvs k v))"
  by (simp add: dict_set_keys)

lemma dict_set_sum:
  "distinct (map fst kvs) \<Longrightarrow>
   sum_list (map snd (dict_set kvs k (dict_get kvs k 0 + 1))) = sum_list (map snd kvs) + (1::int)"
proof (induction kvs)
  case Nil
  then show ?case by (simp add: dict_get_def)
next
  case (Cons kv kvs)
  obtain k' v' where kv: "kv = (k', v')" by (cases kv)
  show ?case
  proof (cases "k' = k")
    case True
    with kv show ?thesis by (simp add: dict_get_def)
  next
    case False
    with kv Cons have "dict_get (kv # kvs) k 0 = dict_get kvs k 0"
      by (simp add: dict_get_def)
    with False kv Cons show ?thesis by simp
  qed
qed

lemma count_stages_invariant:
  "count_stages items sc n = Inr (sc', n') \<Longrightarrow> distinct (map fst sc) \<Longrightarrow>
   sum_list (map snd sc) = n \<Longrightarrow>
   distinct (map fst sc') \<and> sum_list (map snd sc') = n'"
proof (induction items sc n rule: count_stages.induct)
  case (4 pipeline rest stage_counts total_n)
  then show ?case
    by (simp add: Let_def dict_set_distinct dict_set_sum del: dict_set.simps)
qed simp_all

lemma count_stages_raises:
  "Raises e \<in> set items \<Longrightarrow> \<exists>e'. count_stages items sc n = Inl e'"
  by (induction items sc n rule: count_stages.induct) (auto simp add: Let_def)

text \<open>
  C10. \<open>get_pipeline_overview\<close> is \<open>overview_of_cursor\<close> on the documents \<open>find_many\<close>
  returns. In the overview \<open>total_candidates\<close> is the sum of the counts of \<open>by_stage\<close>, whose
  keys are distinct; when it is positive \<open>conversion_rates\<close> has the keys of \<open>by_stage\<close>
  and maps each stage to \<open>(count / total_candidates) * 100\<close> for its count; and when the
  cursor raises, the overview is exactly the safe default.
\<close>

theorem pipeline_overview_consistent:
  fixes float_div :: "int \<Rightarrow> int \<Rightarrow> 'f" and float_mul :: "'f \<Rightarrow> int \<Rightarrow> 'f"
  shows "let ov = overview_of_cursor float_div float_mul pipelines
         in total_candidates ov = sum_list (map snd (by_stage ov))
       \<and> distinct (map fst (by_stage ov))
       \<and> (total_candidates ov > 0 \<longrightarrow>
            map fst (conversion_rates ov) = map fst (by_stage ov)
            \<and> (\<forall>stage c. map_of (by_stage ov) stage = Some c \<longrightarrow>
                  map_of (conversion_rates ov) stage
                    = Some (float_mul (float_div c (total_candidates ov)) 100)))
       \<and> ((\<exists>e. Raises e \<in> set pipelines) \<longrightarrow> ov = safe_default)"
proof (cases "count_stages pipelines [] 0")
  case (Inl e)
  then show ?thesis
    by (simp add: Let_def overview_of_cursor_def safe_default_def)
next
  case (Inr r)
  obtain sc n where r: "r = (sc, n)" by (cases r)
  from Inr r count_stages_invariant [of pipelines "[]" 0 sc n]
  have inv: "distinct (map fst sc)" "sum_list (map snd sc) = n" by simp_all
  have no_raise: "\<not> (\<exists>e. Raises e \<in> set pipelines)"
    using Inr count_stages_raises [of _ pipelines "[]" 0] by auto
  have keys: "map fst (map (\<lambda>(stage, count). (stage, float_mul (float_div count n) 100)) sc)
                = map fst sc"
    by (induction sc) auto
  have vals: "map_of (map (\<lambda>(stage, count). (stage, float_mul (float_div count n) 100)) sc)
                = map_option (\<lambda>count. float_mul (float_div count n) 100) \<circ> map_of sc"
    by (rule map_of_map)
  from Inr r inv no_raise keys vals show ?thesis
    by (simp add: Let_def overview_of_cursor_def)
qed


theorem pipeline_overview_consistent_witness:
  "by_stage (overview_of_cursor (\<lambda>a b. real_of_int a / real_of_int b) (\<lambda>x k. x * real_of_int k)
       [Document (pipeline_at ''Applied''), NotADict, Document (pipeline_at ''Test''),
        Document (pipeline_at ''Applied'')])
     = [(''Applied'', 2), (''Test'', 1)]
   \<and> total_candidates (overview_of_cursor (\<lambda>a b. real_of_int a / real_of_int b)
         (\<lambda>x k. x * real_of_int k)
         [Document (pipeline_at ''Applied''), NotADict, Document (pipeline_at ''Test''),
          Document (pipeline_at ''Applied'')]) = 3
   \<and> map_of (conversion_rates (overview_of_cursor (\<lambda>a b. real_of_int a / real_of_int b)
         (\<lambda>x k. x * real_of_int k)
         [Document (pipeline_at ''Applied''), NotADict, Document (pipeline_at ''Test''),
          Document (pipeline_at ''Applied'')])) ''Test'' = Some (1 / 3 * 100)
   \<and> Raises DriverError \<in> set [Document (pipeline_at ''Applied''), Raises DriverError]
   \<and> overview_of_cursor (\<lambda>a b. real_of_int a / real_of_int b) (\<lambda>x k. x * real_of_int k)
         [Document (pipeline_at ''Applied''), Raises DriverError] = safe_default"
proof -
  let ?fd = "\<lambda>a b. real_of_int a / real_of_int b" and ?fm = "\<lambda>x k. x * real_of_int k"
  let ?items = "[Document (pipeline_at ''Applied''), NotADict, Document (pipeline_at ''Test''),
                 Document (pipeline_at ''Applied'')]"
  let ?ov = "overview_of_cursor ?fd ?fm ?items"
  have bs: "by_stage ?ov = [(''Applied'', 2), (''Test'', 1)]"
    by (simp add: overview_of_cursor_def pipeline_at_def dict_get_def Let_def)
  note inst = pipeline_overview_consistent [of ?fd ?fm ?items, unfolded Let_def]
  from inst bs have tot: "total_candidates ?ov = 3" by simp
  from inst tot bs have rate: "map_of (conversion_rates ?ov) ''Test'' = Some (1 / 3 * 100)"
    by simp
  have r: "Raises DriverError \<in> set [Document (pipeline_at ''Applied''), Raises DriverError]"
    by simp
  from pipeline_overview_consistent
         [of ?fd ?fm "[Document (pipeline_at ''Applied''), Raises DriverError]",
          unfolded Let_def] r
  have dflt: "overview_of_cursor ?fd ?fm [Document (pipeline_at ''Applied''), Raises DriverError]
                = safe_default"
    by blast
  from bs tot rate r dflt show ?thesis by simp
qed

subsection \<open>Signaling relay\<close>

lemma send_buffered_ice_sent:
  "\<not> broken s ws \<Longrightarrow>
   sent (send_buffered_ice s ws cs) = (sent s)(ws := sent s ws @ map Ice cs)"
proof (induction cs arbitrary: s)
  case Nil
  then show ?case by simp
next
  case (Cons c cs)
  have "\<not> broken (try_send s ws (Ice c)) ws"
    using Cons.prems by (simp add: try_send_def send_def)
  from Cons.IH [OF this] Cons.prems show ?case
    by (auto simp add: try_send_def send_def fun_eq_iff)
qed

lemma send_buffered_ice_fields:
  "hr_sockets (send_buffered_ice s ws cs) = hr_sockets s"
  "user_sockets (send_buffered_ice s ws cs) = user_sockets s"
  "pending_offers (send_buffered_ice s ws cs) = pending_offers s"
  "pending_answers (send_buffered_ice s ws cs) = pending_answers s"
  "pending_ice (send_buffered_ice s ws cs) = pending_ice s"
  "pending_ice_hr (send_buffered_ice s ws cs) = pending_ice_hr s"
  "broken (send_buffered_ice s ws cs) = broken s"
  by (induction cs arbitrary: s; simp add: try_send_def send_def)+

lemma try_send_fields:
  "hr_sockets (try_send s ws m) = hr_sockets s"
  "user_sockets (try_send s ws m) = user_sockets s"
  "pending_offers (try_send s ws m) = pending_offers s"
  "pending_answers (try_send s ws m) = pending_answers s"
  "pending_ice (try_send s ws m) = pending_ice s"
  "pending_ice_hr (try_send s ws m) = pending_ice_hr s"
  "broken (try_send s ws m) = broken s"
  by (simp_all add: try_send_def send_def)

lemma try_send_sent:
  "sent (try_send s ws m) = (if broken s ws then sent s else (sent s)(ws := sent s ws @ [m]))"
  by (simp add: try_send_def send_def)

lemma hr_sends_ice_unconnected:
  "user_sockets s app_id = None \<Longrightarrow>
   hr_sockets (hr_sends_ice s app_id cs) = hr_sockets s
   \<and> user_sockets (hr_sends_ice s app_id cs) = user_sockets s
   \<and> pending_offers (hr_sends_ice s app_id cs) = pending_offers s
   \<and> sent (hr_sends_ice s app_id cs) = sent s
   \<and> broken (hr_sends_ice s app_id cs) = broken s
   \<and> buffered (pending_ice (hr_sends_ice s app_id cs)) app_id
       = buffered (pending_ice s) app_id @ cs"
  by (induction cs arbitrary: s) (simp_all add: buffered_def Let_def)

lemma user_sends_ice_unconnected:
  "hr_sockets s app_id = None \<Longrightarrow>
   hr_sockets (user_sends_ice s app_id cs) = hr_sockets s
   \<and> user_sockets (user_sends_ice s app_id cs) = user_sockets s
   \<and> sent (user_sends_ice s app_id cs) = sent s
   \<and> broken (user_sends_ice s app_id cs) = broken s
   \<and> buffered (pending_ice_hr (user_sends_ice s app_id cs)) app_id
       = buffered (pending_ice_hr s) app_id @ cs"
  by (induction cs arbitrary: s) (simp_all add: buffered_def Let_def)

lemma user_connect_sent:
  assumes "\<not> broken s ws" and "hr_sockets s app_id \<noteq> Some ws"
  shows "sent (user_connect s ws app_id) ws
           = sent s ws
             @ (case pending_offers s app_id of None \<Rightarrow> [] | Some offer \<Rightarrow> [Offer offer])
             @ map Ice (buffered (pending_ice s) app_id)"
  using assms
  by (auto simp add: user_connect_def Let_def buffered_def try_send_sent try_send_fields
      send_buffered_ice_sent send_buffered_ice_fields split: option.splits)

lemma hr_connect_sent:
  assumes "\<not> broken s ws" and "user_sockets s app_id \<noteq> Some ws"
  shows "sent (hr_connect s ws app_id) ws
           = sent s ws @ map Ice (buffered (pending_ice_hr s) app_id)"
  using assms
  by (auto simp add: hr_connect_def Let_def buffered_def try_send_sent try_send_fields
      send_buffered_ice_sent send_buffered_ice_fields split: option.splits)


lemma user_connect_fields:
  "pending_ice (user_connect s ws app_id) = pending_ice s"
  "pending_offers (user_connect s ws app_id) = (pending_offers s)(app_id := None)"
  "broken (user_connect s ws app_id) = broken s"
  "hr_sockets (user_connect s ws app_id) = hr_sockets s"
  by (auto simp add: user_connect_def Let_def try_send_fields send_buffered_ice_fields
      split: option.splits)

lemma hr_connect_fields:
  "pending_ice_hr (hr_connect s ws app_id) = pending_ice_hr s"
  "pending_answers (hr_connect s ws app_id) = pending_answers s"
  by (auto simp add: hr_connect_def Let_def try_send_fields send_buffered_ice_fields
      split: option.splits)

text \<open>
  C6. ICE candidates one side sends while its peer is not connected are all delivered,
  in the order the relay received them, when the peer connects: what the connecting
  socket is sent is the pending offer, if any, and then the candidates the buffer held
  followed by the ones just sent. This holds in both directions, for a connecting socket
  whose \<open>send\<close> does not raise.
\<close>

theorem buffered_ice_delivered_in_order:
  "(user_sockets s app_id = None \<and> \<not> broken s ws \<and> hr_sockets s app_id \<noteq> Some ws \<longrightarrow>
      sent (user_connect (hr_sends_ice s app_id cs) ws app_id) ws
        = sent s ws
          @ (case pending_offers s app_id of None \<Rightarrow> [] | Some offer \<Rightarrow> [Offer offer])
          @ map Ice (buffered (pending_ice s) app_id @ cs))
   \<and> (hr_sockets s app_id = None \<and> \<not> broken s ws \<and> user_sockets s app_id \<noteq> Some ws \<longrightarrow>
      sent (hr_connect (user_sends_ice s app_id cs) ws app_id) ws
        = sent s ws @ map Ice (buffered (pending_ice_hr s) app_id @ cs))"
proof (intro conjI impI)
  assume a: "user_sockets s app_id = None \<and> \<not> broken s ws \<and> hr_sockets s app_id \<noteq> Some ws"
  note f = hr_sends_ice_unconnected [of s app_id cs]
  from a f have "\<not> broken (hr_sends_ice s app_id cs) ws"
    and "hr_sockets (hr_sends_ice s app_id cs) app_id \<noteq> Some ws"
    by simp_all
  from user_connect_sent [OF this] a f
  show "sent (user_connect (hr_sends_ice s app_id cs) ws app_id) ws
        = sent s ws
          @ (case pending_offers s app_id of None \<Rightarrow> [] | Some offer \<Rightarrow> [Offer offer])
          @ map Ice (buffered (pending_ice s) app_id @ cs)"
    by simp
next
  assume a: "hr_sockets s app_id = None \<and> \<not> broken s ws \<and> user_sockets s app_id \<noteq> Some ws"
  note f = user_sends_ice_unconnected [of s app_id cs]
  from a f have "\<not> broken (user_sends_ice s app_id cs) ws"
    and "user_sockets (user_sends_ice s app_id cs) app_id \<noteq> Some ws"
    by simp_all
  from hr_connect_sent [OF this] a f
  show "sent (hr_connect (user_sends_ice s app_id cs) ws app_id) ws
        = sent s ws @ map Ice (buffered (pending_ice_hr s) app_id @ cs)"
    by simp
qed

theorem buffered_ice_delivered_in_order_witness:
  "user_sockets initial_relay ''a'' = None \<and> hr_sockets initial_relay ''a'' = None
   \<and> \<not> broken initial_relay 1
   \<and> sent (user_connect (hr_sends_ice initial_relay ''a'' [''X'', ''Y'']) 1 ''a'') 1
       = [Ice ''X'', Ice ''Y'']
   \<and> sent (hr_connect (user_sends_ice initial_relay ''a'' [''X'', ''Y'']) 1 ''a'') 1
       = [Ice ''X'', Ice ''Y'']"
proof -
  have h: "user_sockets initial_relay ''a'' = None" "hr_sockets initial_relay ''a'' = None"
    "\<not> broken initial_relay 1" "pending_offers initial_relay ''a'' = None"
    "sent initial_relay 1 = []" "buffered (pending_ice initial_relay) ''a'' = []"
    "buffered (pending_ice_hr initial_relay) ''a'' = []"
    by (simp_all add: initial_relay_def buffered_def)
  from buffered_ice_delivered_in_order [of initial_relay "''a''" 1 "[''X'', ''Y'']"] h
  show ?thesis by simp
qed

text \<open>
  C5, as stated, fails for ICE candidates: a candidate buffered for the candidate side
  is delivered to the first socket that connects, stays in the buffer, and is delivered
  again to the next socket that connects for the same application.
\<close>

theorem buffered_ice_replayed_counterexample:
  "sent (user_connect
           (fst (user_message
                   (user_connect (fst (hr_message initial_relay ''a'' (Json (Ice ''X''))))
                      1 ''a'')
                   ''a'' Empty))
           2 ''a'') 1 = [Ice ''X'']
   \<and> sent (user_connect
           (fst (user_message
                   (user_connect (fst (hr_message initial_relay ''a'' (Json (Ice ''X''))))
                      1 ''a'')
                   ''a'' Empty))
           2 ''a'') 2 = [Ice ''X'']
   \<and> pending_ice (user_connect
           (fst (user_message
                   (user_connect (fst (hr_message initial_relay ''a'' (Json (Ice ''X''))))
                      1 ''a'')
                   ''a'' Empty))
           2 ''a'') ''a'' = Some [''X'']"
  by (simp add: initial_relay_def user_connect_def user_cleanup_def try_send_def send_def
      Let_def)

text \<open>
  C5, amended. A buffered offer is delivered once, to the first candidate socket that
  connects for the application (its \<open>send\<close> not raising), and is removed from the buffer:
  the next candidate socket is not sent it. Buffered ICE candidates, in both directions,
  are delivered to each socket that connects on the receiving side and stay in the
  buffer.
\<close>

theorem offer_once_ice_retained:
  "(\<not> broken s ws \<and> hr_sockets s app_id \<noteq> Some ws \<longrightarrow>
      sent (user_connect s ws app_id) ws
        = sent s ws
          @ (case pending_offers s app_id of None \<Rightarrow> [] | Some offer \<Rightarrow> [Offer offer])
          @ map Ice (buffered (pending_ice s) app_id))
   \<and> pending_offers (user_connect s ws app_id) app_id = None
   \<and> pending_ice (user_connect s ws app_id) = pending_ice s
   \<and> (\<not> broken s ws' \<and> hr_sockets s app_id \<noteq> Some ws' \<longrightarrow>
        sent (user_connect (user_connect s ws app_id) ws' app_id) ws'
          = sent (user_connect s ws app_id) ws' @ map Ice (buffered (pending_ice s) app_id))
   \<and> pending_ice (user_connect (user_connect s ws app_id) ws' app_id) = pending_ice s
   \<and> (\<not> broken s h \<and> user_sockets s app_id \<noteq> Some h \<longrightarrow>
        sent (hr_connect s h app_id) h
          = sent s h @ map Ice (buffered (pending_ice_hr s) app_id))
   \<and> pending_ice_hr (hr_connect s h app_id) = pending_ice_hr s"
proof -
  let ?s1 = "user_connect s ws app_id"
  have o1: "pending_offers ?s1 app_id = None"
    by (simp add: user_connect_fields)
  have second: "sent (user_connect ?s1 ws' app_id) ws'
                  = sent ?s1 ws' @ map Ice (buffered (pending_ice s) app_id)"
    if "\<not> broken s ws'" and "hr_sockets s app_id \<noteq> Some ws'"
  proof -
    from that have "\<not> broken ?s1 ws'" and "hr_sockets ?s1 app_id \<noteq> Some ws'"
      by (simp_all add: user_connect_fields)
    from user_connect_sent [OF this] o1 show ?thesis
      by (simp add: user_connect_fields)
  qed
  have first: "sent ?s1 ws
                 = sent s ws
                   @ (case pending_offers s app_id of None \<Rightarrow> [] | Some offer \<Rightarrow> [Offer offer])
                   @ map Ice (buffered (pending_ice s) app_id)"
    if "\<not> broken s ws" and "hr_sockets s app_id \<noteq> Some ws"
    using user_connect_sent [OF that] .
  have hr: "sent (hr_connect s h app_id) h
              = sent s h @ map Ice (buffered (pending_ice_hr s) app_id)"
    if "\<not> broken s h" and "user_sockets s app_id \<noteq> Some h"
    using hr_connect_sent [OF that] .
  from first second hr o1 show ?thesis
    by (simp add: user_connect_fields hr_connect_fields)
qed

theorem offer_once_ice_retained_witness:
  "pending_offers (fst (hr_message (fst (hr_message initial_relay ''a'' (Json (Offer ''O''))))
                          ''a'' (Json (Ice ''X'')))) ''a'' = Some ''O''
   \<and> sent (user_connect
             (fst (hr_message (fst (hr_message initial_relay ''a'' (Json (Offer ''O''))))
                     ''a'' (Json (Ice ''X'')))) 1 ''a'') 1 = [Offer ''O'', Ice ''X'']
   \<and> sent (user_connect
             (user_connect
                (fst (hr_message (fst (hr_message initial_relay ''a'' (Json (Offer ''O''))))
                        ''a'' (Json (Ice ''X'')))) 1 ''a'') 2 ''a'') 2 = [Ice ''X'']
   \<and> sent (hr_connect (fst (user_message initial_relay ''a'' (Json (Ice ''Y'')))) 3 ''a'') 3
       = [Ice ''Y'']
   \<and> pending_ice_hr (hr_connect (fst (user_message initial_relay ''a'' (Json (Ice ''Y''))))
                        3 ''a'') ''a'' = Some [''Y'']"
proof -
  let ?s = "fst (hr_message (fst (hr_message initial_relay ''a'' (Json (Offer ''O''))))
                   ''a'' (Json (Ice ''X'')))"
  let ?u = "fst (user_message initial_relay ''a'' (Json (Ice ''Y'')))"
  have s: "?s = initial_relay\<lparr>pending_offers := [''a'' \<mapsto> ''O''],
                               pending_ice := [''a'' \<mapsto> [''X'']]\<rparr>"
    by (simp add: initial_relay_def Let_def)
  have u: "?u = initial_relay\<lparr>pending_ice_hr := [''a'' \<mapsto> [''Y'']]\<rparr>"
    by (simp add: initial_relay_def Let_def)
  have h: "pending_offers ?s ''a'' = Some ''O''" "\<not> broken ?s 1" "\<not> broken ?s 2"
    "hr_sockets ?s ''a'' \<noteq> Some 1" "hr_sockets ?s ''a'' \<noteq> Some 2"
    unfolding s by (simp_all add: initial_relay_def)
  have v: "sent ?s 1 = []" "buffered (pending_ice ?s) ''a'' = [''X'']"
    "sent (user_connect ?s 1 ''a'') 2 = []"
    unfolding s
    by (simp_all add: initial_relay_def buffered_def user_connect_def try_send_def send_def
        Let_def)
  have hu: "\<not> broken ?u 3" "user_sockets ?u ''a'' \<noteq> Some 3" "sent ?u 3 = []"
    "buffered (pending_ice_hr ?u) ''a'' = [''Y'']" "pending_ice_hr ?u ''a'' = Some [''Y'']"
    unfolding u by (simp_all add: initial_relay_def buffered_def)
  from offer_once_ice_retained [of ?s 1 "''a''" 2 3] h v
  have a: "sent (user_connect ?s 1 ''a'') 1 = [Offer ''O'', Ice ''X'']"
    and b: "sent (user_connect (user_connect ?s 1 ''a'') 2 ''a'') 2 = [Ice ''X'']"
    by simp_all
  from offer_once_ice_retained [of ?u 1 "''a''" 2 3] hu
  have c: "sent (hr_connect ?u 3 ''a'') 3 = [Ice ''Y'']"
    and d: "pending_ice_hr (hr_connect ?u 3 ''a'') ''a'' = Some [''Y'']"
    by simp_all
  from h(1) a b c d show ?thesis by simp
qed

text \<open>
  C4. The candidate connects and sends an answer while no HR socket is registered: the
  answer goes to \<open>pending_answers\<close>. When the HR socket then connects it is sent nothing,
  and the answer is still in the buffer: no path of the HR handler reads
  \<open>pending_answers\<close>.
\<close>

theorem buffered_answer_not_delivered:
  "pending_answers (fst (user_message (user_connect initial_relay 1 ''a'') ''a''
                           (Json (Answer ''A'')))) ''a'' = Some ''A''
   \<and> sent (hr_connect (fst (user_message (user_connect initial_relay 1 ''a'') ''a''
                                (Json (Answer ''A'')))) 2 ''a'') 2 = []
   \<and> pending_answers (hr_connect (fst (user_message (user_connect initial_relay 1 ''a'') ''a''
                                (Json (Answer ''A'')))) 2 ''a'') ''a'' = Some ''A''"
  by (simp add: initial_relay_def user_connect_def hr_connect_def try_send_def send_def
      Let_def)

subsection \<open>What the workflow engine writes to the pipeline\<close>

lemma update_first_list_all:
  "list_all P xs \<Longrightarrow> (\<And>x. P x \<Longrightarrow> P (u x)) \<Longrightarrow> list_all P (update_first q u xs)"
  by (induction xs) auto

lemma find_update_first:
  "List.find q xs = Some p \<Longrightarrow> q (u p) \<Longrightarrow> List.find q (update_first q u xs) = Some (u p)"
  by (induction xs) (auto split: if_splits)

lemma find_update_first_map:
  "(\<And>x. q (u x) = q x) \<Longrightarrow>
   List.find q (update_first q u xs) = map_option u (List.find q xs)"
  by (induction xs) auto

lemma schedule_screening_pipeline:
  "candidate_pipeline (schedule_screening db app_id now) = candidate_pipeline db"
  "client (schedule_screening db app_id now) = client db"
  by (auto simp add: schedule_screening_def insert_one_def schedule_events_c_def
      split: sum.splits option.splits if_splits)

lemma schedule_test_pipeline:
  "candidate_pipeline (schedule_test db app_id now) = candidate_pipeline db"
  "client (schedule_test db app_id now) = client db"
  by (auto simp add: schedule_test_def start_test_submission_def insert_one_def
      schedule_events_c_def test_submissions_c_def split: sum.splits option.splits if_splits)

lemma prepare_offer_pipeline:
  "candidate_pipeline (prepare_offer db app_id now) = candidate_pipeline db"
  "client (prepare_offer db app_id now) = client db"
  by (auto simp add: prepare_offer_def insert_one_def schedule_events_c_def job_offers_c_def
      split: sum.splits option.splits if_splits)

lemma schedule_next_steps_pipeline:
  "target \<noteq> INTERVIEW \<Longrightarrow>
   candidate_pipeline (schedule_next_steps db app_id target now) = candidate_pipeline db
   \<and> client (schedule_next_steps db app_id target now) = client db"
  by (cases target)
     (simp_all add: schedule_screening_pipeline schedule_test_pipeline prepare_offer_pipeline)

lemma update_applications_pipeline:
  "candidate_pipeline (fst (update_one db applications_c q u)) = candidate_pipeline db"
  "client (fst (update_one db applications_c q u)) = client db"
  "interviews (fst (update_one db applications_c q u)) = interviews db"
  by (simp_all add: update_one_def applications_c_def)

lemma update_applications_collection:
  "client db \<Longrightarrow>
   applications (fst (update_one db applications_c q u)) = update_first q u (applications db)"
  by (simp add: update_one_def applications_c_def)

lemma update_pipeline_collection:
  "client db \<Longrightarrow>
   candidate_pipeline (fst (update_one db candidate_pipeline_c q u))
     = update_first q u (candidate_pipeline db)"
  "client (fst (update_one db candidate_pipeline_c q u)) = client db"
  "interviews (fst (update_one db candidate_pipeline_c q u)) = interviews db"
  "applications (fst (update_one db candidate_pipeline_c q u)) = applications db"
  by (simp_all add: update_one_def candidate_pipeline_c_def)

lemma find_one_pipeline_Some:
  "find_one db candidate_pipeline_c q = Some p \<Longrightarrow>
   client db \<and> List.find q (candidate_pipeline db) = Some p"
  by (simp add: find_one_def candidate_pipeline_c_def split: if_splits)

text \<open>The slot search reads the store through the connection flag and the interviews.\<close>

lemma check_conflicts_cong:
  "client db' = client db \<Longrightarrow> interviews db' = interviews db \<Longrightarrow>
   check_interview_conflicts db' hr_id t m = check_interview_conflicts db hr_id t m"
proof -
  assume "client db' = client db" and "interviews db' = interviews db"
  then have "find_many db' interviews_c q = find_many db interviews_c q" for q
    by (simp add: find_many_def interviews_c_def)
  then show ?thesis
    by (simp add: check_interview_conflicts_def Let_def split: sum.splits)
qed

lemma scan_hours_cong:
  assumes "client db' = client db" and "interviews db' = interviews db"
  shows "scan_hours db' hr_id d hs = scan_hours db hr_id d hs"
  by (induction hs) (simp_all add: check_conflicts_cong [OF assms] Let_def)

lemma scan_days_cong:
  assumes "client db' = client db" and "interviews db' = interviews db"
  shows "scan_days db' hr_id now offs = scan_days db hr_id now offs"
  by (induction offs) (simp_all add: scan_hours_cong [OF assms] split: sum.splits option.splits)

lemma slot_search_cong:
  assumes "client db' = client db" and "interviews db' = interviews db"
  shows "find_next_available_slot db' hr_id now n = find_next_available_slot db hr_id now n"
  by (simp add: find_next_available_slot_def scan_days_cong [OF assms])

lemma schedule_interview_step_idle:
  assumes oid: "ObjectId app_id = Inr oid"
    and nb: "case find_one db applications_c (\<lambda>a. a_id a = oid) of
               None \<Rightarrow> True
             | Some a \<Rightarrow> find_next_available_slot db (a_hr_id a) now 3 = None"
    and cl: "client db' = client db"
    and iv: "interviews db' = interviews db"
    and ap: "applications db' = update_first (\<lambda>a. a_id a = oid) ua (applications db)"
    and ua: "\<And>a. a_id (ua a) = a_id a" "\<And>a. a_hr_id (ua a) = a_hr_id a"
  shows "schedule_interview_step db' app_id now = db'"
proof -
  have f: "find_one db' applications_c (\<lambda>a. a_id a = oid)
             = map_option ua (find_one db applications_c (\<lambda>a. a_id a = oid))"
    using cl ap ua(1)
    by (simp add: find_one_def applications_c_def find_update_first_map)
  show ?thesis
  proof (cases "find_one db applications_c (\<lambda>a. a_id a = oid)")
    case None
    with f oid show ?thesis by (simp add: schedule_interview_step_def)
  next
    case (Some a)
    with nb have "find_next_available_slot db (a_hr_id a) now 3 = None" by simp
    then have "find_next_available_slot db' (a_hr_id (ua a)) now 3 = None"
      using slot_search_cong [OF cl iv] ua(2) by simp
    with f Some oid show ?thesis by (simp add: schedule_interview_step_def Let_def)
  qed
qed

text \<open>
  What the body of \<open>advance_candidate_stage\<close> has written when its auto-scheduling books
  no interview.
\<close>

lemma advance_body_cases:
  assumes "\<not> books_interview db app_id new_stage auto_schedule now"
  shows "advance_body db app_id new_stage notes auto_schedule now = (db, Inr False)
       \<or> (\<exists>e. advance_body db app_id new_stage notes auto_schedule now = (db, Inl e))
       \<or> (\<exists>p u.
             List.find (\<lambda>p. application_id p = app_id) (candidate_pipeline db) = Some p
             \<and> new_stage \<in> set stage_values
             \<and> application_id (u p) = application_id p
             \<and> (\<forall>x. current_stage (u x) = Some new_stage)
             \<and> candidate_pipeline (fst (advance_body db app_id new_stage notes auto_schedule now))
                 = update_first (\<lambda>p. application_id p = app_id) u (candidate_pipeline db)
             \<and> client (fst (advance_body db app_id new_stage notes auto_schedule now)))"
proof (cases "find_one db candidate_pipeline_c (\<lambda>p. application_id p = app_id)")
  case None
  then show ?thesis by (simp add: advance_body_def)
next
  case (Some p)
  note p = this
  note found = find_one_pipeline_Some [OF p]
  show ?thesis
  proof (cases "current_stage p")
    case None
    with p show ?thesis by (simp add: advance_body_def)
  next
    case (Some cs)
    note cs = this
    show ?thesis
    proof (cases "WorkflowStage_of cs")
      case (Inl e)
      with p cs show ?thesis by (simp add: advance_body_def)
    next
      case (Inr c)
      note c = this
      show ?thesis
      proof (cases "WorkflowStage_of new_stage")
        case (Inl e)
        with p cs c show ?thesis by (simp add: advance_body_def)
      next
        case (Inr target)
        note t = this
        have nv: "new_stage = stage_value target"
          using t by (rule WorkflowStage_of_Inr)
        show ?thesis
        proof (cases "target \<in> set (stage_transitions c)")
          case False
          with p cs c t show ?thesis by (simp add: advance_body_def)
        next
          case True
          let ?u = "\<lambda>x. x\<lparr>current_stage := Some (stage_value target),
                     stage_history := Some
                       ((case stage_history p of None \<Rightarrow> [] | Some h \<Rightarrow> h)
                        @ [\<lparr>h_stage = stage_value target, h_timestamp = now,
                            h_notes = (if notes \<noteq> [] then notes
                                       else ''Advanced from '' @ stage_value c
                                            @ '' to '' @ stage_value target)\<rparr>]),
                     next_action := fst (get_next_action target now),
                     next_action_date := snd (get_next_action target now),
                     updated_at := Some now\<rparr>"
          let ?db1 = "fst (update_one db candidate_pipeline_c (\<lambda>p. application_id p = app_id) ?u)"
          have db1: "candidate_pipeline ?db1
                       = update_first (\<lambda>p. application_id p = app_id) ?u (candidate_pipeline db)"
            "client ?db1" "interviews ?db1 = interviews db" "applications ?db1 = applications db"
            using found by (simp_all add: update_pipeline_collection)
          have body1: "advance_body db app_id new_stage notes auto_schedule now
                         = (case ObjectId app_id of
                              Inl e \<Rightarrow> (?db1, Inl e)
                            | Inr oid \<Rightarrow>
                                (let db2 = fst (update_one ?db1 applications_c
                                                  (\<lambda>a. a_id a = oid)
                                                  (\<lambda>a. a\<lparr>a_status := stage_value target,
                                                         a_updated_at := Some now\<rparr>));
                                     db3 = (if auto_schedule
                                            then schedule_next_steps db2 app_id target now
                                            else db2)
                                 in (db3, Inr True)))"
            using p cs c t True by (simp add: advance_body_def Let_def)
          have res: "candidate_pipeline
                       (fst (advance_body db app_id new_stage notes auto_schedule now))
                     = candidate_pipeline ?db1
                     \<and> client (fst (advance_body db app_id new_stage notes auto_schedule now))"
          proof (cases "ObjectId app_id")
            case (Inl e)
            with body1 db1 show ?thesis by simp
          next
            case (Inr oid)
            let ?ua = "\<lambda>a. a\<lparr>a_status := stage_value target, a_updated_at := Some now\<rparr>"
            let ?db2 = "fst (update_one ?db1 applications_c (\<lambda>a. a_id a = oid) ?ua)"
            have db2: "candidate_pipeline ?db2 = candidate_pipeline ?db1" "client ?db2"
              "client ?db2 = client db" "interviews ?db2 = interviews db"
              "applications ?db2 = update_first (\<lambda>a. a_id a = oid) ?ua (applications db)"
              using db1 found
              by (simp_all add: update_applications_pipeline update_applications_collection)
            have steps: "candidate_pipeline (schedule_next_steps ?db2 app_id target now)
                           = candidate_pipeline ?db2
                         \<and> client (schedule_next_steps ?db2 app_id target now)"
              if "auto_schedule"
            proof (cases "target = INTERVIEW")
              case False
              with schedule_next_steps_pipeline [OF False, of ?db2 app_id now] db2(2)
              show ?thesis by simp
            next
              case True
              with assms that nv Inr
              have nb: "case find_one db applications_c (\<lambda>a. a_id a = oid) of
                          None \<Rightarrow> True
                        | Some a \<Rightarrow> find_next_available_slot db (a_hr_id a) now 3 = None"
                by (simp add: books_interview_def split: option.splits)
              have "schedule_interview_step ?db2 app_id now = ?db2"
                by (rule schedule_interview_step_idle [OF Inr nb db2(3) db2(4) db2(5)]) simp_all
              with True db2(2) show ?thesis by simp
            qed
            from body1 Inr steps db2 show ?thesis
              by (simp add: Let_def)
          qed
          show ?thesis
            apply (rule disjI2, rule disjI2)
            apply (rule exI [of _ p], rule exI [of _ ?u])
            using found nv res db1(1) stage_value_in_stage_values [of target] by simp
        qed
      qed
    qed
  qed
qed

lemma advance_success_stage:
  "snd (advance_candidate_stage db app_id new_stage notes auto_schedule now) \<Longrightarrow>
   new_stage \<in> set stage_values"
  by (auto simp add: advance_candidate_stage_def advance_body_def Let_def
      split: option.splits sum.splits if_splits prod.splits
      dest!: WorkflowStage_of_Inr intro: stage_value_in_stage_values)

lemma initiate_cases:
  "(\<not> snd (initiate_hiring_workflow db app_id now)
      \<and> fst (initiate_hiring_workflow db app_id now) = db)
   \<or> (snd (initiate_hiring_workflow db app_id now)
       \<and> (\<exists>p. application_id p = app_id \<and> current_stage p = Some ''Applied''
               \<and> map h_stage (history_of p) = [''Applied'']
               \<and> candidate_pipeline (fst (initiate_hiring_workflow db app_id now))
                   = candidate_pipeline db @ [p]))"
  by (auto simp add: initiate_hiring_workflow_def insert_one_def candidate_pipeline_c_def
      schedule_screening_pipeline history_of_def
      split: sum.splits option.splits if_splits)

lemma helper_writes_stage:
  assumes "pipeline_of db app_id \<noteq> None"
    and that: "\<And>x. application_id (u x) = application_id x"
  shows "pipeline_stage (fst (update_one db candidate_pipeline_c
                                (\<lambda>p. application_id p = app_id) u)) app_id
           = (case pipeline_of db app_id of
                None \<Rightarrow> None | Some p \<Rightarrow> current_stage (u p))"
proof -
  from assms(1) obtain p where p: "pipeline_of db app_id = Some p" by auto
  with find_one_pipeline_Some [of db "\<lambda>p. application_id p = app_id" p]
  have cl: "client db"
    and f: "List.find (\<lambda>p. application_id p = app_id) (candidate_pipeline db) = Some p"
    by (simp_all add: pipeline_of_def)
  from f have "application_id p = app_id" by (auto simp add: find_Some_iff)
  with that have "application_id (u p) = app_id" by simp
  with find_update_first [OF f, of u]
  have "List.find (\<lambda>p. application_id p = app_id)
          (update_first (\<lambda>p. application_id p = app_id) u (candidate_pipeline db)) = Some (u p)"
    by simp
  with cl p show ?thesis
    by (simp add: pipeline_stage_def pipeline_of_def find_one_def update_one_def
        candidate_pipeline_c_def)
qed


lemma ObjectId_app1: "ObjectId app1 = Inr app1"
  by (simp add: ObjectId_def app1_def is_hexdigit_def is_space_def lower_hex_def)

lemmas workflow_eval =
  advance_candidate_stage_def advance_body_def initiate_hiring_workflow_def
  schedule_screening_def schedule_test_def schedule_interview_step_def prepare_offer_def
  schedule_interview_def InterviewService_update_candidate_pipeline_def
  OfferService_update_candidate_pipeline_def books_interview_def
  insert_one_def update_one_def find_one_def interviews_c_def applications_c_def
  candidate_pipeline_c_def schedule_events_c_def tests_c_def test_submissions_c_def
  job_offers_c_def pipeline_stage_def pipeline_of_def history_of_def store_at_def
  pipeline_at_def application1_def ObjectId_app1 WorkflowStage_of_def stage_values_def
  stages_valid_def stage_valid_def

text \<open>
  C2, as stated, fails: \<open>schedule_interview\<close> of the interview service, an operation
  other than the stage transition, writes the pipeline record, and the stage it writes
  is none of the seven stage values.
\<close>

theorem pipeline_written_elsewhere_counterexample:
  "pipeline_stage (store_at ''Screening'' []) app1 = Some ''Screening''
   \<and> pipeline_stage
        (fst (schedule_interview (store_at ''Screening'' []) app1 ''job1'' ''user1'' ''hr1''
                ''Video'' (monday + hours 9) 60 (monday + hours 8))) app1
       = Some ''Interview Scheduled''
   \<and> ''Interview Scheduled'' \<notin> set stage_values"
  by (simp add: workflow_eval Let_def)

text \<open>
  C2, amended. The writes of the workflow engine itself keep \<open>current_stage\<close> among the
  seven stage values. \<open>initiate_hiring_workflow\<close>, when it succeeds, appends one pipeline
  for the application, at \<open>Applied\<close> with the one history entry \<open>Applied\<close>, and otherwise
  leaves the store as it is. \<open>advance_candidate_stage\<close> succeeds only for a requested
  stage among the seven values and, unless its auto-scheduling books an interview, leaves
  every pipeline at one of the seven values and, on success, the pipeline of the
  application at the requested stage. The stage transition is not the only writer:
  the \<open>_update_candidate_pipeline\<close> of the interview service and of the offer service set
  the \<open>current_stage\<close> of an existing pipeline to the stage they are given.
\<close>

theorem workflow_writes_stage_values:
  "(snd (initiate_hiring_workflow db app_id now) \<longrightarrow>
      (\<exists>p. application_id p = app_id \<and> current_stage p = Some ''Applied''
           \<and> map h_stage (history_of p) = [''Applied'']
           \<and> candidate_pipeline (fst (initiate_hiring_workflow db app_id now))
               = candidate_pipeline db @ [p]))
   \<and> (\<not> snd (initiate_hiring_workflow db app_id now) \<longrightarrow>
        fst (initiate_hiring_workflow db app_id now) = db)
   \<and> (stages_valid db \<longrightarrow> stages_valid (fst (initiate_hiring_workflow db app_id now)))
   \<and> (stages_valid db \<and> \<not> books_interview db app_id new_stage auto_schedule now \<longrightarrow>
        stages_valid
          (fst (advance_candidate_stage db app_id new_stage notes auto_schedule now)))
   \<and> (snd (advance_candidate_stage db app_id new_stage notes auto_schedule now) \<longrightarrow>
        new_stage \<in> set stage_values)
   \<and> (snd (advance_candidate_stage db app_id new_stage notes auto_schedule now)
        \<and> \<not> books_interview db app_id new_stage auto_schedule now \<longrightarrow>
        pipeline_stage
          (fst (advance_candidate_stage db app_id new_stage notes auto_schedule now)) app_id
          = Some new_stage)
   \<and> (pipeline_of db app_id \<noteq> None \<longrightarrow>
        pipeline_stage (InterviewService_update_candidate_pipeline db app_id stage now) app_id
          = Some stage)
   \<and> (pipeline_of db app_id \<noteq> None \<longrightarrow>
        pipeline_stage (OfferService_update_candidate_pipeline db app_id stage now) app_id
          = Some stage)"
proof -
  let ?i = "initiate_hiring_workflow db app_id now"
  let ?b = "advance_body db app_id new_stage notes auto_schedule now"
  let ?a = "advance_candidate_stage db app_id new_stage notes auto_schedule now"
  have i1: "snd ?i \<longrightarrow>
      (\<exists>p. application_id p = app_id \<and> current_stage p = Some ''Applied''
           \<and> map h_stage (history_of p) = [''Applied'']
           \<and> candidate_pipeline (fst ?i) = candidate_pipeline db @ [p])"
    and i2: "\<not> snd ?i \<longrightarrow> fst ?i = db"
    using initiate_cases [of db app_id now] by auto
  have i3: "stages_valid db \<longrightarrow> stages_valid (fst ?i)"
    using initiate_cases [of db app_id now]
    by (auto simp add: stages_valid_def stage_valid_def stage_values_def)
  have adv: "?a = (fst ?b, case snd ?b of Inl e \<Rightarrow> False | Inr r \<Rightarrow> r)"
    by (simp add: advance_candidate_stage_def split: prod.splits sum.splits)
  have a2: "snd ?a \<longrightarrow> new_stage \<in> set stage_values"
    using advance_success_stage by blast
  have a13: "(stages_valid db \<longrightarrow> stages_valid (fst ?a))
             \<and> (snd ?a \<longrightarrow> pipeline_stage (fst ?a) app_id = Some new_stage)"
    if nb: "\<not> books_interview db app_id new_stage auto_schedule now"
  proof -
    from advance_body_cases [OF nb, of "notes"]
    consider (unchanged) "fst ?b = db" "snd ?b = Inr False \<or> (\<exists>e. snd ?b = Inl e)"
      | (written) p u where
          "List.find (\<lambda>p. application_id p = app_id) (candidate_pipeline db) = Some p"
          "new_stage \<in> set stage_values"
          "application_id (u p) = application_id p"
          "\<forall>x. current_stage (u x) = Some new_stage"
          "candidate_pipeline (fst ?b)
             = update_first (\<lambda>p. application_id p = app_id) u (candidate_pipeline db)"
          "client (fst ?b)"
      by (metis fst_conv snd_conv)
    then show ?thesis
    proof cases
      case unchanged
      with adv show ?thesis by auto
    next
      case written
      have valid: "stages_valid db \<longrightarrow> stages_valid (fst ?b)"
        using written(2,4,5)
        by (auto simp add: stages_valid_def stage_valid_def intro!: update_first_list_all)
      have q: "application_id p = app_id"
        using written(1) by (auto simp add: find_Some_iff)
      have "List.find (\<lambda>p. application_id p = app_id) (candidate_pipeline (fst ?b))
              = Some (u p)"
        using written(1,3,5) q by (simp add: find_update_first)
      then have "pipeline_stage (fst ?b) app_id = Some new_stage"
        using written(4,6)
        by (simp add: pipeline_stage_def pipeline_of_def find_one_def candidate_pipeline_c_def)
      with valid adv show ?thesis by simp
    qed
  qed
  have h1: "pipeline_of db app_id \<noteq> None \<longrightarrow>
              pipeline_stage (InterviewService_update_candidate_pipeline db app_id stage now)
                app_id = Some stage"
  proof
    assume e: "pipeline_of db app_id \<noteq> None"
    then obtain p where p: "pipeline_of db app_id = Some p" by auto
    let ?u = "\<lambda>x. x\<lparr>current_stage := Some stage,
                stage_history := Some
                  ((case stage_history p of None \<Rightarrow> [] | Some h \<Rightarrow> h)
                   @ [\<lparr>h_stage = stage, h_timestamp = now,
                       h_notes = ''Automated update: '' @ stage\<rparr>]),
                updated_at := Some now\<rparr>"
    from helper_writes_stage [OF e, of ?u] p
    show "pipeline_stage (InterviewService_update_candidate_pipeline db app_id stage now)
            app_id = Some stage"
      by (simp add: InterviewService_update_candidate_pipeline_def pipeline_of_def Let_def)
  qed
  have h2: "pipeline_of db app_id \<noteq> None \<longrightarrow>
              pipeline_stage (OfferService_update_candidate_pipeline db app_id stage now)
                app_id = Some stage"
  proof
    assume e: "pipeline_of db app_id \<noteq> None"
    then obtain p where p: "pipeline_of db app_id = Some p" by auto
    from helper_writes_stage
           [OF e, of "\<lambda>p. p\<lparr>current_stage := Some stage, updated_at := Some now\<rparr>"] p
    show "pipeline_stage (OfferService_update_candidate_pipeline db app_id stage now)
            app_id = Some stage"
      by (simp add: OfferService_update_candidate_pipeline_def)
  qed
  from i1 i2 i3 a2 a13 h1 h2 show ?thesis by blast
qed

theorem workflow_writes_stage_values_witness:
  "snd (initiate_hiring_workflow ((store_at ''Applied'' [])\<lparr>candidate_pipeline := []\<rparr>) app1
          (monday + hours 8))
   \<and> map current_stage
        (candidate_pipeline
           (fst (initiate_hiring_workflow ((store_at ''Applied'' [])\<lparr>candidate_pipeline := []\<rparr>)
                   app1 (monday + hours 8)))) = [Some ''Applied'']
   \<and> stages_valid (store_at ''Applied'' [])
   \<and> \<not> books_interview (store_at ''Applied'' []) app1 ''Screening'' True (monday + hours 8)
   \<and> stages_valid
       (fst (advance_candidate_stage (store_at ''Applied'' []) app1 ''Screening'' [] True
               (monday + hours 8)))
   \<and> snd (advance_candidate_stage (store_at ''Applied'' []) app1 ''Screening'' [] True
            (monday + hours 8))
   \<and> ''Screening'' \<in> set stage_values
   \<and> pipeline_stage
       (fst (advance_candidate_stage (store_at ''Applied'' []) app1 ''Screening'' [] True
               (monday + hours 8))) app1 = Some ''Screening''
   \<and> \<not> books_interview (store_at ''Screening'' busy_three_days) app1 ''Interview'' True
          (monday + hours 8)
   \<and> snd (advance_candidate_stage (store_at ''Screening'' busy_three_days) app1 ''Interview''
            [] True (monday + hours 8))
   \<and> pipeline_stage
       (fst (advance_candidate_stage (store_at ''Screening'' busy_three_days) app1
               ''Interview'' [] True (monday + hours 8))) app1 = Some ''Interview''
   \<and> pipeline_of (store_at ''Offer'' []) app1 \<noteq> None
   \<and> pipeline_stage
       (InterviewService_update_candidate_pipeline (store_at ''Offer'' []) app1
          ''Interview Passed'' (monday + hours 8)) app1 = Some ''Interview Passed''
   \<and> pipeline_stage
       (OfferService_update_candidate_pipeline (store_at ''Offer'' []) app1
          ''Offer Rejected'' (monday + hours 8)) app1 = Some ''Offer Rejected''"
proof -
  let ?t = "monday + hours 8"
  let ?d0 = "(store_at ''Applied'' [])\<lparr>candidate_pipeline := []\<rparr>"
  let ?d1 = "store_at ''Applied'' []"
  let ?d2 = "store_at ''Screening'' busy_three_days"
  let ?d3 = "store_at ''Offer'' []"
  have i: "snd (initiate_hiring_workflow ?d0 app1 ?t)"
    by (simp add: workflow_eval)
  have c0: "candidate_pipeline ?d0 = []"
    by simp
  from workflow_writes_stage_values [of ?d0 app1 ?t "''Screening''" True "[]" "''x''"] i c0
  have w1: "map current_stage (candidate_pipeline (fst (initiate_hiring_workflow ?d0 app1 ?t)))
              = [Some ''Applied'']"
    by auto
  have v1: "stages_valid ?d1"
    and nb1: "\<not> books_interview ?d1 app1 ''Screening'' True ?t"
    by (simp_all add: workflow_eval)
  have s1: "snd (advance_candidate_stage ?d1 app1 ''Screening'' [] True ?t)"
    by (simp add: workflow_eval Let_def)
  from workflow_writes_stage_values [of ?d1 app1 ?t "''Screening''" True "[]" "''x''"] v1 nb1 s1
  have w2: "stages_valid (fst (advance_candidate_stage ?d1 app1 ''Screening'' [] True ?t))"
    and w3: "''Screening'' \<in> set stage_values"
    and w4: "pipeline_stage (fst (advance_candidate_stage ?d1 app1 ''Screening'' [] True ?t))
               app1 = Some ''Screening''"
    by blast+
  have nb2: "\<not> books_interview ?d2 app1 ''Interview'' True ?t"
    by (simp add: workflow_eval busy_three_days_def slot_eval)
  have s2: "snd (advance_candidate_stage ?d2 app1 ''Interview'' [] True ?t)"
    by (simp add: workflow_eval busy_three_days_def slot_eval)
  from workflow_writes_stage_values [of ?d2 app1 ?t "''Interview''" True "[]" "''x''"] nb2 s2
  have w5: "pipeline_stage (fst (advance_candidate_stage ?d2 app1 ''Interview'' [] True ?t))
              app1 = Some ''Interview''"
    by blast
  have e3: "pipeline_of ?d3 app1 \<noteq> None"
    by (simp add: workflow_eval)
  from workflow_writes_stage_values
         [of ?d3 app1 ?t "''Hired''" True "[]" "''Interview Passed''"] e3
  have w6: "pipeline_stage (InterviewService_update_candidate_pipeline ?d3 app1
              ''Interview Passed'' ?t) app1 = Some ''Interview Passed''"
    by blast
  from workflow_writes_stage_values
         [of ?d3 app1 ?t "''Hired''" True "[]" "''Offer Rejected''"] e3
  have w7: "pipeline_stage (OfferService_update_candidate_pipeline ?d3 app1
              ''Offer Rejected'' ?t) app1 = Some ''Offer Rejected''"
    by blast
  from i w1 v1 nb1 w2 s1 w3 w4 nb2 s2 w5 e3 w6 w7 show ?thesis
    by blast
qed

text \<open>
  C3. From \<open>Screening\<close>, a successful \<open>advance_candidate_stage\<close> to \<open>Interview\<close> with
  auto-scheduling books an interview, and \<open>schedule_interview\<close> appends a second history
  entry and overwrites the stage: the history grows by two, the stage is not the
  requested one, and the next transition of the table, to \<open>Offer\<close>, is refused.
\<close>

theorem advance_to_interview_appends_twice:
  "snd (advance_candidate_stage (store_at ''Screening'' []) app1 ''Interview'' [] True
          (monday + hours 8))
   \<and> map_option (map h_stage \<circ> history_of)
        (pipeline_of (store_at ''Screening'' []) app1) = Some [''Screening'']
   \<and> map_option (map h_stage \<circ> history_of)
        (pipeline_of
           (fst (advance_candidate_stage (store_at ''Screening'' []) app1 ''Interview'' [] True
                   (monday + hours 8))) app1)
       = Some [''Screening'', ''Interview'', ''Interview Scheduled'']
   \<and> pipeline_stage
        (fst (advance_candidate_stage (store_at ''Screening'' []) app1 ''Interview'' [] True
                (monday + hours 8))) app1 = Some ''Interview Scheduled''
   \<and> \<not> snd (advance_candidate_stage
              (fst (advance_candidate_stage (store_at ''Screening'' []) app1 ''Interview'' []
                      True (monday + hours 8)))
              app1 ''Offer'' [] True (monday + hours 9))"
  by (simp add: workflow_eval slot_eval Let_def)

end
